theory Spec2Isabelle
  imports Main "HOL-Library.Word" "HOL-Library.Sublist" "HOL-Library.AList"
begin

unbundle bit_operations_syntax

section \<open>Strings and number formatting used by the scanner\<close>

text \<open>
  Go strings are byte sequences; they are modelled as \<^typ>\<open>string\<close> (a list of 8-bit
  characters). The library functions the scanner calls are written out for the byte
  strings it passes to them.
\<close>

definition digit_char :: "nat \<Rightarrow> char" where
  "digit_char d = ''0123456789'' ! d"

text \<open>Decimal rendering of a natural number, as \<open>%d\<close> and \<open>strconv.FormatInt\<close> print it.\<close>

function showNat :: "nat \<Rightarrow> string" where
  "showNat n = (if n < 10 then [digit_char n] else showNat (n div 10) @ [digit_char (n mod 10)])"
  by pat_completeness auto
termination
  by (relation "measure id") auto

declare showNat.simps [simp del]

definition FormatInt :: "int \<Rightarrow> string" where
  "FormatInt i = (if i < 0 then CHR ''-'' # showNat (nat (- i)) else showNat (nat i))"

text \<open>\<open>strings.Contains(s, substr)\<close>: \<open>substr\<close> occurs in \<open>s\<close> as a contiguous block.\<close>

fun Contains :: "string \<Rightarrow> string \<Rightarrow> bool" where
  "Contains [] substr = (substr = [])"
| "Contains (c # cs) substr = (prefix substr (c # cs) \<or> Contains cs substr)"

definition isDigit :: "char \<Rightarrow> bool" where
  "isDigit c = (48 \<le> (of_char c :: nat) \<and> (of_char c :: nat) \<le> 57)"

definition digit_value :: "char \<Rightarrow> nat" where
  "digit_value c = of_char c - 48"

text \<open>The number a string of decimal digits denotes, accumulated left to right.\<close>

definition digits_value :: "string \<Rightarrow> nat" where
  "digits_value s = foldl (\<lambda>acc c. acc * 10 + digit_value c) 0 s"

text \<open>\<open>strings.Split(s, sep)\<close> for a separator of one byte: the pieces between the
  occurrences of the separator, one more than there are occurrences.\<close>

fun Split :: "string \<Rightarrow> char \<Rightarrow> string list" where
  "Split [] sep = [[]]"
| "Split (c # cs) sep =
     (if c = sep then [] # Split cs sep
      else (case Split cs sep of [] \<Rightarrow> [[c]] | p # ps \<Rightarrow> (c # p) # ps))"

text \<open>\<open>strings.Trim(s, cutset)\<close> for a cutset of ASCII bytes: all leading and all
  trailing bytes of the cutset are removed.\<close>

definition Trim :: "string \<Rightarrow> string \<Rightarrow> string" where
  "Trim s cutset =
     rev (dropWhile (\<lambda>c. c \<in> set cutset) (rev (dropWhile (\<lambda>c. c \<in> set cutset) s)))"

text \<open>\<open>strings.TrimSpace\<close> on ASCII text: tab, line feed, vertical tab, form feed,
  carriage return and space are white space.\<close>

definition isSpace :: "char \<Rightarrow> bool" where
  "isSpace c = (c \<in> set [CHR 0x09, CHR 0x0A, CHR 0x0B, CHR 0x0C, CHR 0x0D, CHR 0x20])"

definition TrimSpace :: "string \<Rightarrow> string" where
  "TrimSpace s = rev (dropWhile isSpace (rev (dropWhile isSpace s)))"

text \<open>
  \<open>strconv.ParseInt(s, 10, 64)\<close>: an optional sign, then at least one decimal digit and
  nothing else; a value outside the \<open>int64\<close> range is an error. \<open>None\<close> is the error
  return.
\<close>

definition ParseUint10 :: "string \<Rightarrow> nat option" where
  "ParseUint10 s = (if s = [] \<or> \<not> list_all isDigit s then None else Some (digits_value s))"

definition ParseInt :: "string \<Rightarrow> int option" where
  "ParseInt s =
     (if s = [] then None
      else
        let neg = (hd s = CHR ''-'');
            s' = (if hd s = CHR ''+'' \<or> hd s = CHR ''-'' then tl s else s)
        in case ParseUint10 s' of
             None \<Rightarrow> None
           | Some un \<Rightarrow>
               if \<not> neg \<and> int un \<ge> 2 ^ 63 then None
               else if neg \<and> int un > 2 ^ 63 then None
               else Some (if neg then - int un else int un))"

text \<open>\<open>strings.Join(elems, sep)\<close>.\<close>

fun Join :: "string list \<Rightarrow> string \<Rightarrow> string" where
  "Join [] sep = []"
| "Join [e] sep = e"
| "Join (e # es) sep = e @ sep @ Join es sep"

text \<open>A byte matched by the regular expression \<open>[a-zA-Z0-9]\<close>.\<close>

definition isAlnum :: "char \<Rightarrow> bool" where
  "isAlnum c =
     (let k = (of_char c :: nat)
      in (97 \<le> k \<and> k \<le> 122) \<or> (65 \<le> k \<and> k \<le> 90) \<or> (48 \<le> k \<and> k \<le> 57))"

section \<open>Data model\<close>

text \<open>\<open>models.ScanInstanceInfo\<close>. Go's \<open>int\<close> fields hold configuration values and are
  modelled as \<^typ>\<open>int\<close>; \<open>Uptime\<close> is an \<open>int64\<close>.\<close>

record ScanInstanceInfo =
  TargetName :: string
  IPKey :: string
  IP :: string
  Port :: int
  SlaveID :: int
  Protocol :: string
  Model :: string
  Version :: string
  SerialNumber :: string
  SnmpEngineID :: string
  SysName :: string
  SysDescr :: string
  Uptime :: "64 word"
  InstanceType :: string
  Manufacturer :: string
  MacAddress :: string
  Factory :: string
  Phase :: string
  Datacenter :: string
  Room :: string

text \<open>The zero value \<open>models.ScanInstanceInfo{}\<close>.\<close>

definition ScanInstanceInfo_zero :: ScanInstanceInfo where
  "ScanInstanceInfo_zero =
     \<lparr>TargetName = [], IPKey = [], IP = [], Port = 0, SlaveID = 0, Protocol = [], Model = [],
      Version = [], SerialNumber = [], SnmpEngineID = [], SysName = [], SysDescr = [],
      Uptime = 0, InstanceType = [], Manufacturer = [], MacAddress = [], Factory = [],
      Phase = [], Datacenter = [], Room = []\<rparr>"

definition PROTOCOL_SNMP :: string where "PROTOCOL_SNMP = ''snmp''"
definition PROTOCOL_MODBUS :: string where "PROTOCOL_MODBUS = ''modbus''"
definition InstanceTypeUnknown :: string where "InstanceTypeUnknown = ''unknown''"
definition UNKNOWN_NAME :: string where "UNKNOWN_NAME = ''unknown''"
definition DEFAULT_UNKNOWN_VALUE :: string where "DEFAULT_UNKNOWN_VALUE = ''unknown''"
definition SCAN_PDU_LIST :: string where "SCAN_PDU_LIST = ''scan_pdu.csv''"
definition SCAN_DEVICE_LIST :: string where "SCAN_DEVICE_LIST = ''scan_device.csv''"

datatype error =
    InvalidAddress
  | RangeOrder
  | OpenFileFailed
  | SaveFailed "error list"
  | ModbusNotFound string string
  | ScanPanic string
  | ScanErrors "error list"
  | UnsupportedMode string
  | ConnectFailed
  | UnsupportedRegisterType string
  | ReadRegisterFailed
  | InvalidData
  | SnmpConnectFailed
  | SnmpGetFailed

text \<open>A run-time panic of the Go program.\<close>

datatype go_panic = IndexOutOfRange | TypeAssertionFailed

text \<open>\<open>models.Target\<close>, with the fields of its two nested structs written out.\<close>

record Target =
  Target_Name :: string
  Target_InstanceType :: string
  Target_Manufacturer :: string
  Target_Model :: string
  Target_Protocol :: string
  SNMP_MatchValueContains :: string
  SNMP_MatchOID :: string
  Modbus_MatchValueContains :: string
  Modbus_MatchRegisterType :: string
  Modbus_MatchAddress :: int
  Modbus_MatchLength :: int

record SNMPRequest =
  SNMPRequest_Name :: string
  SNMPRequest_OID :: string

record SnmpConn =
  SnmpConn_IP :: string
  SnmpConn_Port :: int
  SnmpConn_Version :: int
  SnmpConn_Community :: string

record SnmpSession =
  SnmpSession_Conn :: SnmpConn
  SnmpSession_Requests :: "SNMPRequest list"

record SNMPInstanceLib =
  SNMP_TargetNames :: "string list"
  SNMP_Targets :: "Target list"
  CustomModelSessions :: "SnmpSession list"
  DetailFieldSessions :: "SnmpSession list"
  UnknownSession :: SnmpSession

record SnmpConnInfo =
  ConnInfo_IP :: string
  ConnInfo_Port :: int
  ConnInfo_Community :: string
  ConnInfo_Version :: int

record SNMPSettings =
  SNMPSettings_Port :: int
  SNMPSettings_Community :: string
  SNMPSettings_Version :: int

record ModbusConn =
  ModbusConn_IP :: string
  ModbusConn_Port :: int
  ModbusConn_Mode :: string
  ModbusConn_SlaveID :: "8 word"

record ModbusRequest =
  RegisterType :: string
  RegisterName :: string
  Address :: "16 word"
  Length :: "16 word"

record ModbusSession =
  ModbusSession_Conn :: ModbusConn
  ModbusSession_Requests :: "ModbusRequest list"

record ModbusInstanceLib =
  Modbus_TargetNames :: "string list"
  Modbus_Targets :: "Target list"
  MatchSession :: ModbusSession
  DetailSession :: ModbusSession

record ModbusSettings =
  ModbusSettings_Port :: "int list"
  ModbusSettings_Mode :: string
  ModbusSettings_SlaveID :: "int list"

record ModbusConnInfo =
  MCI_IP :: string
  MCI_Port :: int
  MCI_SlaveID :: int
  MCI_Model :: string
  MCI_Manufacturer :: string
  MCI_InstanceType :: string

record Dependencies =
  Dependencies_Protocol :: string
  SourceTarget :: string
  LinkedTarget :: "string list"

text \<open>Zero values of the session structs.\<close>

definition SnmpSession_zero :: SnmpSession where
  "SnmpSession_zero =
     \<lparr>SnmpSession_Conn =
        \<lparr>SnmpConn_IP = [], SnmpConn_Port = 0, SnmpConn_Version = 0, SnmpConn_Community = []\<rparr>,
      SnmpSession_Requests = []\<rparr>"

definition ModbusSession_zero :: ModbusSession where
  "ModbusSession_zero =
     \<lparr>ModbusSession_Conn =
        \<lparr>ModbusConn_IP = [], ModbusConn_Port = 0, ModbusConn_Mode = [], ModbusConn_SlaveID = 0\<rparr>,
      ModbusSession_Requests = []\<rparr>"

text \<open>The field names and object identifiers of \<open>models/constants.go\<close>.\<close>

definition FIELD_MODEL_NAME :: string where "FIELD_MODEL_NAME = ''model''"
definition FIELD_SERIAL_NUMBER_NAME :: string where "FIELD_SERIAL_NUMBER_NAME = ''serial_number''"
definition FIELD_VERSION_NAME :: string where "FIELD_VERSION_NAME = ''version''"
definition FIELD_SNMP_ENGINE_ID_NAME :: string where "FIELD_SNMP_ENGINE_ID_NAME = ''snmp_engine_id''"
definition FIELD_UPTIME_NAME :: string where "FIELD_UPTIME_NAME = ''uptime''"
definition FIELD_SYS_NAME :: string where "FIELD_SYS_NAME = ''sys_name''"
definition FIELD_SYS_DESCR_NAME :: string where "FIELD_SYS_DESCR_NAME = ''sys_descr''"

definition PDU4445_NAME :: string where "PDU4445_NAME = ''PDU-DELTA-PDU4445''"
definition PDU1315_NAME :: string where "PDU1315_NAME = ''PDU-DELTA-PDU1315''"
definition PDUE428_NAME :: string where "PDUE428_NAME = ''PDU-DELTA-PDUE428''"
definition PDU6PS56_NAME :: string where "PDU6PS56_NAME = ''PDU-VERTIV-6PS56''"
definition SWITCH5130_NAME :: string where "SWITCH5130_NAME = ''SWITCH-HPE-5130''"
definition SWITCH5945_NAME :: string where "SWITCH5945_NAME = ''SWITCH-HPE-5945''"
definition IOT_CLIENT_NAME :: string where "IOT_CLIENT_NAME = ''IOT_CLIENT-LIENEO-WCM-421''"

definition SNMP_OID_SYS_NAME :: string where "SNMP_OID_SYS_NAME = ''1.3.6.1.2.1.1.5.0''"
definition SNMP_OID_SYS_DESCR :: string where "SNMP_OID_SYS_DESCR = ''1.3.6.1.2.1.1.1.0''"
definition SNMP_OID_UPTIME :: string where "SNMP_OID_UPTIME = ''1.3.6.1.2.1.1.3.0''"
definition SNMP_OID_SNMP_ENGINE_ID :: string where
  "SNMP_OID_SNMP_ENGINE_ID = ''1.3.6.1.6.3.10.2.1.1.0''"
definition SNMP_OID_DELTA_PDU_MODEL :: string where
  "SNMP_OID_DELTA_PDU_MODEL = ''1.3.6.1.4.1.2254.2.32.1.6.1.3.1''"
definition SNMP_OID_DELTA_PDU_SERIAL_NUMBER :: string where
  "SNMP_OID_DELTA_PDU_SERIAL_NUMBER = ''1.3.6.1.4.1.2254.2.32.1.6.1.4.1''"
definition SNMP_OID_DELTA_PDU_VERSION :: string where
  "SNMP_OID_DELTA_PDU_VERSION = ''1.3.6.1.4.1.2254.2.32.1.4.0''"
definition SNMP_OID_VERTIV_6PS56_MODEL :: string where
  "SNMP_OID_VERTIV_6PS56_MODEL = ''1.3.6.1.4.1.21239.5.2.1.8.0''"
definition SNMP_OID_VERTIV_6PS56_SERIAL_NUMBER :: string where
  "SNMP_OID_VERTIV_6PS56_SERIAL_NUMBER = ''1.3.6.1.4.1.21239.5.2.1.10.0''"
definition SNMP_OID_VERTIV_6PS56_VERSION :: string where
  "SNMP_OID_VERTIV_6PS56_VERSION = ''1.3.6.1.4.1.21239.5.2.1.2.0''"

definition MODBUS_DELTA_PDU_MODEL_ADDRESS :: "16 word" where
  "MODBUS_DELTA_PDU_MODEL_ADDRESS = 1024"
definition MODBUS_DELTA_PDU_SERIAL_ADDRESS :: "16 word" where
  "MODBUS_DELTA_PDU_SERIAL_ADDRESS = 768"
definition MODBUS_DELTA_PDU_MODEL_REGISTER_TYPE :: string where
  "MODBUS_DELTA_PDU_MODEL_REGISTER_TYPE = ''input''"
definition MODBUS_DELTA_PDU_SERIAL_REGISTER_TYPE :: string where
  "MODBUS_DELTA_PDU_SERIAL_REGISTER_TYPE = ''holding''"
definition MODBUS_DELTA_PDU_SERIAL_LENGTH :: "16 word" where
  "MODBUS_DELTA_PDU_SERIAL_LENGTH = 8"
definition MODBUS_DELTA_PDU_MODEL_LENGTH :: "16 word" where
  "MODBUS_DELTA_PDU_MODEL_LENGTH = 8"

section \<open>Deduplication and persistence (services package)\<close>

text \<open>
  The pending-list files are CSV files. A file is modelled by the list of its records, each
  record the list of its fields; the file system maps a file name to its records, and a
  name that is not mapped does not exist.
\<close>

type_synonym csv_row = "string list"
type_synonym filesystem = "string \<rightharpoonup> csv_row list"

definition pending_pdu_header :: csv_row where
  "pending_pdu_header =
     [''ip_key'', ''model'', ''ip'', ''protocol'', ''version'', ''serial_number'',
      ''mac_address'', ''instance_type'', ''manufacturer'', ''uptime'', ''updated_at'']"

definition pending_device_header :: csv_row where
  "pending_device_header =
     [''ip_key'', ''ip'', ''protocol'', ''model'', ''mac_address'', ''instance_type'',
      ''manufacturer'', ''uptime'', ''updated_at'']"

text \<open>The identity key computed in the loop body of \<open>FilteredResults\<close>:
  \<open>ip:port\<close>, replaced by \<open>ip:port:slave\<close> for Modbus records.\<close>

definition ipKey_of :: "ScanInstanceInfo \<Rightarrow> string" where
  "ipKey_of result =
     (let ipKey = IP result @ '':'' @ FormatInt (Port result) in
      if Protocol result = PROTOCOL_MODBUS
        then IP result @ '':'' @ FormatInt (Port result) @ '':'' @ FormatInt (SlaveID result)
      else if Protocol result = PROTOCOL_SNMP
        then IP result @ '':'' @ FormatInt (Port result)
      else ipKey)"

text \<open>
  \<open>FilteredResults\<close>, a loop over \<open>results\<close> with the accumulator \<open>filteredResults\<close>.
  The two globals it reads, \<open>global.ScanIPKeyList\<close> and \<open>global.ScanResults\<close>, are
  parameters. Step 3 of the body is a \<open>continue\<close> at the very end of the body.
\<close>

fun FilteredResults_loop ::
  "string list \<Rightarrow> (string \<rightharpoonup> ScanInstanceInfo) \<Rightarrow> ScanInstanceInfo list \<Rightarrow>
   ScanInstanceInfo list \<Rightarrow> ScanInstanceInfo list" where
  "FilteredResults_loop ScanIPKeyList ScanResults filteredResults [] = filteredResults"
| "FilteredResults_loop ScanIPKeyList ScanResults filteredResults (result # rest) =
     (if Model result = DEFAULT_UNKNOWN_VALUE
        then FilteredResults_loop ScanIPKeyList ScanResults filteredResults rest
      else
        let ipKey = ipKey_of result;
            filteredResults' =
              (if ipKey \<notin> set ScanIPKeyList
                 then filteredResults @ [result\<lparr>IPKey := ipKey\<rparr>]
               else filteredResults)
        in if ScanResults ipKey \<noteq> None
             then FilteredResults_loop ScanIPKeyList ScanResults filteredResults' rest
           else FilteredResults_loop ScanIPKeyList ScanResults filteredResults' rest)"

definition FilteredResults ::
  "string list \<Rightarrow> (string \<rightharpoonup> ScanInstanceInfo) \<Rightarrow> ScanInstanceInfo list \<Rightarrow>
   ScanInstanceInfo list" where
  "FilteredResults ScanIPKeyList ScanResults results =
     FilteredResults_loop ScanIPKeyList ScanResults [] results"



text \<open>The record \<open>saveToCSV\<close> writes for one result.\<close>

definition csv_record :: "bool \<Rightarrow> string \<Rightarrow> ScanInstanceInfo \<Rightarrow> csv_row" where
  "csv_record isPDU currentTime result =
     (if isPDU then
        [IPKey result, Model result, IP result, Protocol result, Version result,
         SerialNumber result, MacAddress result, InstanceType result, Manufacturer result,
         FormatInt (sint (Uptime result)), currentTime]
      else
        [IPKey result, IP result, Protocol result, Model result, MacAddress result,
         InstanceType result, Manufacturer result, FormatInt (sint (Uptime result)),
         currentTime])"

text \<open>
  \<open>saveToCSV\<close>. \<open>cannot_open\<close> says for which names \<open>os.OpenFile\<close> fails; \<open>currentTime\<close>
  is \<open>formatTime(time.Now())\<close>, the RFC 3339 text of the clock at the call. The file is
  opened with \<open>O_APPEND|O_WRONLY|O_CREATE\<close>, so everything written goes after the
  records already there. Writes to an opened file are taken to succeed.
\<close>

definition saveToCSV ::
  "(string \<Rightarrow> bool) \<Rightarrow> string \<Rightarrow> filesystem \<Rightarrow> ScanInstanceInfo list \<Rightarrow> bool \<Rightarrow>
   error option \<times> filesystem" where
  "saveToCSV cannot_open currentTime fs results isPDU =
     (let filename = (if isPDU then SCAN_PDU_LIST else SCAN_DEVICE_LIST);
          header = (if isPDU then pending_pdu_header else pending_device_header);
          fileExists = (fs filename \<noteq> None)
      in if cannot_open filename then (Some OpenFileFailed, fs)
         else
           let existing = (case fs filename of None \<Rightarrow> [] | Some rows \<Rightarrow> rows);
               headerRows = (if \<not> fileExists then [header] else [])
           in (None,
               fs(filename \<mapsto> existing @ headerRows @ map (csv_record isPDU currentTime) results)))"







section \<open>CIDR and range utility (utils package)\<close>

text \<open>
  An IPv4 address as \<open>net.IP.To4()\<close> returns it: four bytes. \<open>net.ParseIP(s).To4()\<close>
  is a parameter \<open>ParseIP_To4\<close> of the functions that call it (\<open>None\<close> for \<open>nil\<close>), so
  that what is proved holds for every textual form the library accepts.
\<close>

type_synonym IPv4 = "8 word \<times> 8 word \<times> 8 word \<times> 8 word"

definition ipToUint32 :: "IPv4 \<Rightarrow> 32 word" where
  "ipToUint32 ip =
     (case ip of (b0, b1, b2, b3) \<Rightarrow>
        push_bit 24 (ucast b0) OR push_bit 16 (ucast b1) OR push_bit 8 (ucast b2) OR ucast b3)"

definition uint32ToIP :: "32 word \<Rightarrow> IPv4" where
  "uint32ToIP n = (ucast (drop_bit 24 n), ucast (drop_bit 16 n), ucast (drop_bit 8 n), ucast n)"

text \<open>\<open>net.IP.String()\<close> of an IPv4 address: dotted decimal.\<close>

definition IP_String :: "IPv4 \<Rightarrow> string" where
  "IP_String ip =
     (case ip of (b0, b1, b2, b3) \<Rightarrow>
        showNat (unat b0) @ ''.'' @ showNat (unat b1) @ ''.'' @ showNat (unat b2) @ ''.'' @
        showNat (unat b3))"

text \<open>The dotted-decimal texts \<open>net.ParseIP\<close> accepts: four fields of decimal digits, each
  at most 255 and without a leading zero.\<close>

definition parse_octet :: "string \<Rightarrow> 8 word option" where
  "parse_octet s =
     (if s = [] \<or> \<not> list_all isDigit s \<or> (length s > 1 \<and> hd s = CHR ''0'') then None
      else if digits_value s > 255 then None
      else Some (word_of_nat (digits_value s)))"

definition parseIPv4 :: "string \<Rightarrow> IPv4 option" where
  "parseIPv4 s =
     (case Split s CHR ''.'' of
        [f0, f1, f2, f3] \<Rightarrow>
          (case (parse_octet f0, parse_octet f1, parse_octet f2, parse_octet f3) of
             (Some b0, Some b1, Some b2, Some b3) \<Rightarrow> Some (b0, b1, b2, b3)
           | _ \<Rightarrow> None)
      | _ \<Rightarrow> None)"

text \<open>\<open>bits.Len32(x)\<close>: the number of bits needed to represent \<open>x\<close>, 0 for \<open>x = 0\<close>.\<close>

definition Len32 :: "32 word \<Rightarrow> nat" where
  "Len32 x = length (dropWhile (\<lambda>i. \<not> bit x i) (rev [0..<32]))"

text \<open>Lines 31 to 34 of \<open>CalculateCIDR\<close>: the network address and the prefix length.\<close>

definition CalculateCIDR_block :: "32 word \<Rightarrow> 32 word \<Rightarrow> 32 word \<times> nat" where
  "CalculateCIDR_block startInt endInt =
     (let diff = startInt XOR endInt;
          maskLen = 32 - Len32 diff;
          network = startInt AND push_bit (32 - maskLen) (NOT 0)
      in (network, maskLen))"

definition CalculateCIDR ::
  "(string \<Rightarrow> IPv4 option) \<Rightarrow> string \<Rightarrow> string \<Rightarrow> error + string" where
  "CalculateCIDR ParseIP_To4 startIP endIP =
     (case (ParseIP_To4 startIP, ParseIP_To4 endIP) of
        (Some start, Some end) \<Rightarrow>
          let startInt = ipToUint32 start; endInt = ipToUint32 end
          in if startInt > endInt then Inl RangeOrder
             else
               let (network, maskLen) = CalculateCIDR_block startInt endInt;
                   networkIP = uint32ToIP network
               in Inr (IP_String networkIP @ ''/'' @ FormatInt (int maskLen))
      | _ \<Rightarrow> Inl InvalidAddress)"

text \<open>
  The loop of \<open>ExpandRange\<close>, \<open>for i := startInt; i <= endInt; i++\<close> on \<open>uint32\<close>:
  \<open>i + 1\<close> wraps around. A run that never leaves the loop has the value \<open>None\<close>.
\<close>

partial_function (option) ExpandRange_loop ::
  "32 word \<Rightarrow> 32 word \<Rightarrow> string list \<Rightarrow> string list option" where
  "ExpandRange_loop i endInt ips =
     (if i \<le> endInt then ExpandRange_loop (i + 1) endInt (ips @ [IP_String (uint32ToIP i)])
      else Some ips)"

definition ExpandRange ::
  "(string \<Rightarrow> IPv4 option) \<Rightarrow> string \<Rightarrow> string \<Rightarrow> (error + string list) option" where
  "ExpandRange ParseIP_To4 startIP endIP =
     (case (ParseIP_To4 startIP, ParseIP_To4 endIP) of
        (Some start, Some end) \<Rightarrow>
          let startInt = ipToUint32 start; endInt = ipToUint32 end
          in if startInt > endInt then Some (Inl RangeOrder)
             else map_option Inr (ExpandRange_loop startInt endInt [])
      | _ \<Rightarrow> Some (Inl InvalidAddress))"

section \<open>Liveness prober (utils package)\<close>

text \<open>
  What one run of the external \<open>fping\<close> command gives back through
  \<open>cmd.CombinedOutput()\<close>: the lines the scanner reads from the captured output, in
  order, and the error of the invocation, if any.
\<close>

record fping_run =
  scanned_lines :: "string list"
  run_error :: "string option"

fun ExecuteFping_loop :: "string list \<Rightarrow> string list \<Rightarrow> string list" where
  "ExecuteFping_loop [] activeIPs = activeIPs"
| "ExecuteFping_loop (line # rest) activeIPs =
     (let parts = Split line CHR '':''
      in if length parts \<noteq> 2 \<or> Contains (parts ! 1) ''-''
           then ExecuteFping_loop rest activeIPs
         else ExecuteFping_loop rest (activeIPs @ [TrimSpace (parts ! 0)]))"

text \<open>\<open>ExecuteFping\<close>; \<open>run_fping\<close> runs the command with the given arguments. The
  invocation error is assigned to the blank identifier.\<close>

definition ExecuteFping ::
  "(string list \<Rightarrow> fping_run) \<Rightarrow> string \<Rightarrow> int \<Rightarrow> int \<Rightarrow> string list \<times> error option" where
  "ExecuteFping run_fping cidr retries timeout =
     (let args = [''-C'', FormatInt retries, ''-t'', FormatInt timeout, ''-r'', ''0'', ''-A'',
                  ''-q'', ''-g'', cidr];
          output = scanned_lines (run_fping args)
      in (ExecuteFping_loop output [], None))"

section \<open>Uptime normalisation (services package)\<close>

text \<open>\<open>parseUptimeToSeconds\<close>; the result is an \<open>int64\<close>, and the products wrap around.\<close>

definition parseUptimeToSeconds :: "string \<Rightarrow> 64 word" where
  "parseUptimeToSeconds uptimeStr =
     (if uptimeStr = [] then 0
      else
        let trimmed = Trim uptimeStr ''()'';
            parts = Split trimmed CHR '' ''
        in if length parts \<noteq> 2 then 0
           else
             (case ParseInt (parts ! 0) of
                None \<Rightarrow> 0
              | Some v \<Rightarrow>
                  let val = (word_of_int v :: 64 word)
                  in if parts ! 1 = ''days'' then val * 24 * 60 * 60
                     else if parts ! 1 = ''hours'' then val * 60 * 60
                     else if parts ! 1 = ''minutes'' then val * 60
                     else if parts ! 1 = ''seconds'' then val
                     else 0))"

section \<open>Target signature library (services package)\<close>

definition getSNMPInstanceFieldRequest :: "string \<Rightarrow> SNMPRequest list" where
  "getSNMPInstanceFieldRequest targetName =
     (if targetName = PDUE428_NAME then
        [\<lparr>SNMPRequest_Name = FIELD_MODEL_NAME, SNMPRequest_OID = SNMP_OID_DELTA_PDU_MODEL\<rparr>,
         \<lparr>SNMPRequest_Name = FIELD_SERIAL_NUMBER_NAME,
          SNMPRequest_OID = SNMP_OID_DELTA_PDU_SERIAL_NUMBER\<rparr>,
         \<lparr>SNMPRequest_Name = FIELD_VERSION_NAME, SNMPRequest_OID = SNMP_OID_DELTA_PDU_VERSION\<rparr>,
         \<lparr>SNMPRequest_Name = FIELD_UPTIME_NAME, SNMPRequest_OID = SNMP_OID_UPTIME\<rparr>]
      else if targetName = PDU6PS56_NAME then
        [\<lparr>SNMPRequest_Name = FIELD_MODEL_NAME, SNMPRequest_OID = SNMP_OID_VERTIV_6PS56_MODEL\<rparr>,
         \<lparr>SNMPRequest_Name = FIELD_SERIAL_NUMBER_NAME,
          SNMPRequest_OID = SNMP_OID_VERTIV_6PS56_SERIAL_NUMBER\<rparr>,
         \<lparr>SNMPRequest_Name = FIELD_VERSION_NAME, SNMPRequest_OID = SNMP_OID_VERTIV_6PS56_VERSION\<rparr>,
         \<lparr>SNMPRequest_Name = FIELD_UPTIME_NAME, SNMPRequest_OID = SNMP_OID_UPTIME\<rparr>]
      else if targetName = SWITCH5130_NAME \<or> targetName = SWITCH5945_NAME \<or>
              targetName = IOT_CLIENT_NAME then
        [\<lparr>SNMPRequest_Name = FIELD_SNMP_ENGINE_ID_NAME, SNMPRequest_OID = SNMP_OID_SNMP_ENGINE_ID\<rparr>,
         \<lparr>SNMPRequest_Name = FIELD_SYS_DESCR_NAME, SNMPRequest_OID = SNMP_OID_SYS_DESCR\<rparr>,
         \<lparr>SNMPRequest_Name = FIELD_SYS_NAME, SNMPRequest_OID = SNMP_OID_SYS_NAME\<rparr>,
         \<lparr>SNMPRequest_Name = FIELD_UPTIME_NAME, SNMPRequest_OID = SNMP_OID_UPTIME\<rparr>]
      else if targetName = UNKNOWN_NAME then
        [\<lparr>SNMPRequest_Name = FIELD_SYS_NAME, SNMPRequest_OID = SNMP_OID_SYS_NAME\<rparr>,
         \<lparr>SNMPRequest_Name = FIELD_SYS_DESCR_NAME, SNMPRequest_OID = SNMP_OID_SYS_DESCR\<rparr>,
         \<lparr>SNMPRequest_Name = FIELD_UPTIME_NAME, SNMPRequest_OID = SNMP_OID_UPTIME\<rparr>]
      else [])"

definition getModbusInstanceFieldRequest :: "string \<Rightarrow> ModbusRequest list" where
  "getModbusInstanceFieldRequest targetName =
     (if targetName = PDU1315_NAME \<or> targetName = PDU4445_NAME then
        [\<lparr>RegisterType = MODBUS_DELTA_PDU_MODEL_REGISTER_TYPE, RegisterName = FIELD_MODEL_NAME,
          Address = MODBUS_DELTA_PDU_MODEL_ADDRESS, Length = MODBUS_DELTA_PDU_MODEL_LENGTH\<rparr>,
         \<lparr>RegisterType = MODBUS_DELTA_PDU_SERIAL_REGISTER_TYPE,
          RegisterName = FIELD_SERIAL_NUMBER_NAME,
          Address = MODBUS_DELTA_PDU_SERIAL_ADDRESS, Length = MODBUS_DELTA_PDU_SERIAL_LENGTH\<rparr>]
      else [])"

text \<open>\<open>loadSNMPInstanceLib\<close>: the loop over the configured targets, then the session for
  unknown devices. The result is the new value of \<open>global.SNMPInstanceLib\<close>.\<close>

fun loadSNMPInstanceLib_loop :: "Target list \<Rightarrow> SNMPInstanceLib \<Rightarrow> SNMPInstanceLib" where
  "loadSNMPInstanceLib_loop [] snmpInstanceLib = snmpInstanceLib"
| "loadSNMPInstanceLib_loop (targetConfig # rest) snmpInstanceLib =
     (if Target_Protocol targetConfig \<noteq> PROTOCOL_SNMP
        then loadSNMPInstanceLib_loop rest snmpInstanceLib
      else
        let matchSession =
              SnmpSession_zero\<lparr>SnmpSession_Requests :=
                [\<lparr>SNMPRequest_Name = Target_Name targetConfig,
                  SNMPRequest_OID = SNMP_MatchOID targetConfig\<rparr>]\<rparr>;
            oids = getSNMPInstanceFieldRequest (Target_Name targetConfig);
            detailSession = SnmpSession_zero\<lparr>SnmpSession_Requests := oids\<rparr>
        in loadSNMPInstanceLib_loop rest
             (snmpInstanceLib
                \<lparr>CustomModelSessions := CustomModelSessions snmpInstanceLib @ [matchSession],
                 DetailFieldSessions := DetailFieldSessions snmpInstanceLib @ [detailSession],
                 SNMP_Targets := SNMP_Targets snmpInstanceLib @ [targetConfig],
                 SNMP_TargetNames := SNMP_TargetNames snmpInstanceLib @ [Target_Name targetConfig]\<rparr>))"

definition loadSNMPInstanceLib :: "SNMPSettings \<Rightarrow> Target list \<Rightarrow> SNMPInstanceLib" where
  "loadSNMPInstanceLib settings targets =
     (let snmpInstanceLib =
            loadSNMPInstanceLib_loop targets
              \<lparr>SNMP_TargetNames = [], SNMP_Targets = [], CustomModelSessions = [],
               DetailFieldSessions = [], UnknownSession = SnmpSession_zero\<rparr>;
          baseConn =
            \<lparr>SnmpConn_IP = [], SnmpConn_Port = SNMPSettings_Port settings,
             SnmpConn_Version = SNMPSettings_Version settings,
             SnmpConn_Community = SNMPSettings_Community settings\<rparr>;
          oids = getSNMPInstanceFieldRequest UNKNOWN_NAME;
          detailSession = \<lparr>SnmpSession_Conn = baseConn, SnmpSession_Requests = oids\<rparr>
      in snmpInstanceLib\<lparr>UnknownSession := detailSession\<rparr>)"

text \<open>
  \<open>loadModbusInstanceLib\<close>: for every port and slave ID, the loop over all configured
  targets. The manufacturer of a target is appended to \<open>mfg_targets\<close> before the
  protocol test and before the membership test on \<open>mfg_targets\<close>.
\<close>

fun loadModbus_targets ::
  "ModbusConn \<Rightarrow> Target list \<Rightarrow> string list \<Rightarrow> ModbusInstanceLib \<Rightarrow> ModbusInstanceLib" where
  "loadModbus_targets baseConn [] mfg_targets modbusInstanceLib = modbusInstanceLib"
| "loadModbus_targets baseConn (targetConfig # rest) mfg_targets modbusInstanceLib =
     (let mfg_targets' = mfg_targets @ [Target_Manufacturer targetConfig]
      in if Target_Protocol targetConfig \<noteq> PROTOCOL_MODBUS
           then loadModbus_targets baseConn rest mfg_targets' modbusInstanceLib
         else if Target_Manufacturer targetConfig \<notin> set mfg_targets'
           then loadModbus_targets baseConn rest mfg_targets' modbusInstanceLib
         else
           let matchSession =
                 \<lparr>ModbusSession_Conn = baseConn,
                  ModbusSession_Requests =
                    [\<lparr>RegisterType = Modbus_MatchRegisterType targetConfig,
                      RegisterName = Target_Name targetConfig,
                      Address = word_of_int (Modbus_MatchAddress targetConfig),
                      Length = word_of_int (Modbus_MatchLength targetConfig)\<rparr>]\<rparr>;
               oids = getModbusInstanceFieldRequest (Target_Name targetConfig);
               detailSession = \<lparr>ModbusSession_Conn = baseConn, ModbusSession_Requests = oids\<rparr>
           in loadModbus_targets baseConn rest mfg_targets'
                (modbusInstanceLib
                   \<lparr>MatchSession := matchSession,
                    DetailSession := detailSession,
                    Modbus_Targets := Modbus_Targets modbusInstanceLib @ [targetConfig],
                    Modbus_TargetNames :=
                      Modbus_TargetNames modbusInstanceLib @ [Target_Name targetConfig]\<rparr>))"

fun loadModbus_slaves ::
  "ModbusSettings \<Rightarrow> Target list \<Rightarrow> int \<Rightarrow> int list \<Rightarrow> ModbusInstanceLib \<Rightarrow>
   ModbusInstanceLib" where
  "loadModbus_slaves config targets port [] modbusInstanceLib = modbusInstanceLib"
| "loadModbus_slaves config targets port (slaveID # rest) modbusInstanceLib =
     (let baseConn =
            \<lparr>ModbusConn_IP = [], ModbusConn_Port = port, ModbusConn_Mode = ModbusSettings_Mode config,
             ModbusConn_SlaveID = word_of_int slaveID\<rparr>
      in loadModbus_slaves config targets port rest
           (loadModbus_targets baseConn targets [] modbusInstanceLib))"

fun loadModbus_ports ::
  "ModbusSettings \<Rightarrow> Target list \<Rightarrow> int list \<Rightarrow> ModbusInstanceLib \<Rightarrow> ModbusInstanceLib" where
  "loadModbus_ports config targets [] modbusInstanceLib = modbusInstanceLib"
| "loadModbus_ports config targets (port # rest) modbusInstanceLib =
     loadModbus_ports config targets rest
       (loadModbus_slaves config targets port (ModbusSettings_SlaveID config) modbusInstanceLib)"

definition loadModbusInstanceLib :: "ModbusSettings \<Rightarrow> Target list \<Rightarrow> ModbusInstanceLib" where
  "loadModbusInstanceLib config targets =
     loadModbus_ports config targets (ModbusSettings_Port config)
       \<lparr>Modbus_TargetNames = [], Modbus_Targets = [], MatchSession = ModbusSession_zero,
        DetailSession = ModbusSession_zero\<rparr>"

section \<open>SNMP matching (services package)\<close>

text \<open>
  The network as the SNMP client sees it: whether a connection can be set up, and what a
  \<open>Get\<close> of a list of object identifiers returns (the values of the variables, or an
  error). A value is \<open>nil\<close>, a string, or of some other dynamic type.
\<close>

datatype snmp_value = SnmpNil | SnmpString string | SnmpOther

record snmp_network =
  snmp_connect :: "SnmpConn \<Rightarrow> bool"
  snmp_get :: "SnmpConn \<Rightarrow> string list \<Rightarrow> snmp_value list option"

text \<open>
  \<open>GetSnmpValue\<close>. The returned Go map is an association list in the order the keys are
  first stored; the sessions built by \<open>loadSNMPInstanceLib\<close> for matching have one
  request, so the maps the matcher ranges over have at most one entry.
\<close>

fun oid_index :: "string \<Rightarrow> string list \<Rightarrow> nat \<Rightarrow> nat" where
  "oid_index requestOID [] i = 0"
| "oid_index requestOID (oid # oids) i =
     (if oid = requestOID then i else oid_index requestOID oids (Suc i))"

fun GetSnmpValue_info ::
  "SNMPRequest list \<Rightarrow> string list \<Rightarrow> snmp_value list \<Rightarrow> (string \<times> snmp_value) list \<Rightarrow>
   go_panic + (string \<times> snmp_value) list" where
  "GetSnmpValue_info [] snmpOids variables info = Inr info"
| "GetSnmpValue_info (request # rest) snmpOids variables info =
     (let oidIndex = oid_index (SNMPRequest_OID request) snmpOids 0
      in if oidIndex < length variables
           then GetSnmpValue_info rest snmpOids variables
                  (AList.update (SNMPRequest_Name request) (variables ! oidIndex) info)
         else Inl IndexOutOfRange)"

definition GetSnmpValue ::
  "snmp_network \<Rightarrow> SnmpSession \<Rightarrow> go_panic + (error + (string \<times> snmp_value) list)" where
  "GetSnmpValue net snmpSession =
     (if \<not> snmp_connect net (SnmpSession_Conn snmpSession) then Inr (Inl SnmpConnectFailed)
      else
        let snmpOids = map SNMPRequest_OID (SnmpSession_Requests snmpSession)
        in case snmp_get net (SnmpSession_Conn snmpSession) snmpOids of
             None \<Rightarrow> Inr (Inl SnmpGetFailed)
           | Some variables \<Rightarrow>
               (case GetSnmpValue_info (SnmpSession_Requests snmpSession) snmpOids variables [] of
                  Inl p \<Rightarrow> Inl p
                | Inr info \<Rightarrow> Inr (Inr info)))"

text \<open>\<open>getStringValue\<close> on an SNMP result.\<close>

definition getStringValue :: "(string \<times> snmp_value) list \<Rightarrow> string \<Rightarrow> string" where
  "getStringValue result key =
     (case map_of result key of Some (SnmpString str) \<Rightarrow> str | _ \<Rightarrow> [])"

text \<open>
  \<open>GetSNMPTargetByMatchModelValue\<close>. The state of the two loops is the triple of
  \<open>detailSession\<close>, \<open>instanceInfo\<close> and \<open>isMatchInstance\<close>. The inner loop runs over all
  targets with their indices; it has no \<open>break\<close>.
\<close>

type_synonym match_state = "SnmpSession \<times> ScanInstanceInfo \<times> bool"

fun GetSNMPTarget_targets ::
  "SNMPInstanceLib \<Rightarrow> string \<Rightarrow> int \<Rightarrow> string \<Rightarrow> string \<Rightarrow> nat \<Rightarrow> Target list \<Rightarrow> match_state \<Rightarrow>
   go_panic + match_state" where
  "GetSNMPTarget_targets snmpInstanceLib ip port protocol matchValue i [] st = Inr st"
| "GetSNMPTarget_targets snmpInstanceLib ip port protocol matchValue i (target # rest) st =
     (if Target_Protocol target \<noteq> PROTOCOL_SNMP
        then GetSNMPTarget_targets snmpInstanceLib ip port protocol matchValue (Suc i) rest st
      else if Contains matchValue (SNMP_MatchValueContains target) then
        (if i < length (DetailFieldSessions snmpInstanceLib) then
           GetSNMPTarget_targets snmpInstanceLib ip port protocol matchValue (Suc i) rest
             (DetailFieldSessions snmpInstanceLib ! i,
              ScanInstanceInfo_zero
                \<lparr>TargetName := Target_Name target, IP := ip, Port := port, Protocol := protocol,
                 Model := Target_Model target, Manufacturer := Target_Manufacturer target,
                 InstanceType := Target_InstanceType target\<rparr>,
              True)
         else Inl IndexOutOfRange)
      else GetSNMPTarget_targets snmpInstanceLib ip port protocol matchValue (Suc i) rest st)"

fun GetSNMPTarget_values ::
  "SNMPInstanceLib \<Rightarrow> string \<Rightarrow> int \<Rightarrow> string \<Rightarrow> string list \<Rightarrow> match_state \<Rightarrow>
   go_panic + match_state" where
  "GetSNMPTarget_values snmpInstanceLib ip port protocol [] st = Inr st"
| "GetSNMPTarget_values snmpInstanceLib ip port protocol (matchValue # rest) st =
     (if matchValue = ''<nil>'' \<or> matchValue = [] \<or> snd (snd st)
        then GetSNMPTarget_values snmpInstanceLib ip port protocol rest st
      else
        (case GetSNMPTarget_targets snmpInstanceLib ip port protocol matchValue 0
                (SNMP_Targets snmpInstanceLib) st of
           Inl p \<Rightarrow> Inl p
         | Inr st' \<Rightarrow> GetSNMPTarget_values snmpInstanceLib ip port protocol rest st'))"

definition GetSNMPTargetByMatchModelValue ::
  "SNMPInstanceLib \<Rightarrow> SNMPSettings \<Rightarrow> string \<Rightarrow> int \<Rightarrow> string \<Rightarrow> string list \<Rightarrow>
   go_panic + (ScanInstanceInfo \<times> SnmpSession)" where
  "GetSNMPTargetByMatchModelValue snmpInstanceLib settings ip port protocol matchResult =
     (case GetSNMPTarget_values snmpInstanceLib ip port protocol matchResult
             (SnmpSession_zero, ScanInstanceInfo_zero, False) of
        Inl p \<Rightarrow> Inl p
      | Inr (detailSession, instanceInfo, isMatchInstance) \<Rightarrow>
          if \<not> isMatchInstance then
            Inr (ScanInstanceInfo_zero
                   \<lparr>TargetName := UNKNOWN_NAME, Port := SNMPSettings_Port settings,
                    Protocol := PROTOCOL_SNMP, Model := DEFAULT_UNKNOWN_VALUE,
                    Manufacturer := DEFAULT_UNKNOWN_VALUE, InstanceType := InstanceTypeUnknown\<rparr>,
                 UnknownSession snmpInstanceLib)
          else Inr (instanceInfo, detailSession))"

text \<open>
  \<open>MatchSnmpInstances\<close>: the candidate strings, one per match session that answers,
  then the classification, then the detail query and the MAC address. \<open>arp\<close> is
  \<open>utils.GetMacByArp\<close> (\<open>None\<close> for its error, on which the MAC address stays empty).
  A type assertion \<open>value.(string)\<close> on a value that is neither \<open>nil\<close> nor a string
  panics.
\<close>

fun MatchSnmp_values :: "(string \<times> snmp_value) list \<Rightarrow> string list \<Rightarrow> go_panic + string list" where
  "MatchSnmp_values [] results = Inr results"
| "MatchSnmp_values ((name, val) # rest) results =
     (case val of
        SnmpNil \<Rightarrow> MatchSnmp_values rest results
      | SnmpOther \<Rightarrow> Inl TypeAssertionFailed
      | SnmpString str \<Rightarrow>
          if str = [] \<or> str = '' '' then MatchSnmp_values rest results
          else if \<not> list_ex isAlnum str then MatchSnmp_values rest results
          else MatchSnmp_values rest (results @ [str]))"

definition withConn :: "SnmpConnInfo \<Rightarrow> SnmpSession \<Rightarrow> SnmpSession" where
  "withConn snmpConnInfo session =
     session\<lparr>SnmpSession_Conn :=
       \<lparr>SnmpConn_IP = ConnInfo_IP snmpConnInfo, SnmpConn_Port = ConnInfo_Port snmpConnInfo,
        SnmpConn_Version = ConnInfo_Version snmpConnInfo,
        SnmpConn_Community = ConnInfo_Community snmpConnInfo\<rparr>\<rparr>"

fun MatchSnmp_sessions ::
  "snmp_network \<Rightarrow> SnmpConnInfo \<Rightarrow> SnmpSession list \<Rightarrow> string list \<Rightarrow> go_panic + string list" where
  "MatchSnmp_sessions net snmpConnInfo [] snmpMatchResult = Inr snmpMatchResult"
| "MatchSnmp_sessions net snmpConnInfo (matchSession # rest) snmpMatchResult =
     (case GetSnmpValue net (withConn snmpConnInfo matchSession) of
        Inl p \<Rightarrow> Inl p
      | Inr (Inl err) \<Rightarrow> MatchSnmp_sessions net snmpConnInfo rest snmpMatchResult
      | Inr (Inr result) \<Rightarrow>
          (case MatchSnmp_values result [] of
             Inl p \<Rightarrow> Inl p
           | Inr results \<Rightarrow>
               MatchSnmp_sessions net snmpConnInfo rest (snmpMatchResult @ [Join results '' ''])))"

definition MatchSnmpInstances ::
  "snmp_network \<Rightarrow> (string \<Rightarrow> string option) \<Rightarrow> SNMPInstanceLib \<Rightarrow> SNMPSettings \<Rightarrow> SnmpConnInfo \<Rightarrow>
   go_panic + (ScanInstanceInfo \<times> error option)" where
  "MatchSnmpInstances net arp snmpInstanceLib settings snmpConnInfo =
     (case MatchSnmp_sessions net snmpConnInfo (CustomModelSessions snmpInstanceLib) [] of
        Inl p \<Rightarrow> Inl p
      | Inr snmpMatchResult \<Rightarrow>
          (case GetSNMPTargetByMatchModelValue snmpInstanceLib settings (ConnInfo_IP snmpConnInfo)
                  (ConnInfo_Port snmpConnInfo) PROTOCOL_SNMP snmpMatchResult of
             Inl p \<Rightarrow> Inl p
           | Inr (instanceInfo, detailSession) \<Rightarrow>
               (case GetSnmpValue net (withConn snmpConnInfo detailSession) of
                  Inl p \<Rightarrow> Inl p
                | Inr detail \<Rightarrow>
                    let snmpDetailResult = (case detail of Inl err \<Rightarrow> [] | Inr info \<Rightarrow> info);
                        mac = (case arp (ConnInfo_IP snmpConnInfo) of None \<Rightarrow> [] | Some m \<Rightarrow> m)
                    in Inr (instanceInfo
                              \<lparr>MacAddress := mac,
                               Version := getStringValue snmpDetailResult FIELD_VERSION_NAME,
                               SerialNumber :=
                                 getStringValue snmpDetailResult FIELD_SERIAL_NUMBER_NAME,
                               SnmpEngineID :=
                                 getStringValue snmpDetailResult FIELD_SNMP_ENGINE_ID_NAME,
                               SysName := getStringValue snmpDetailResult FIELD_SYS_NAME,
                               SysDescr := getStringValue snmpDetailResult FIELD_SYS_DESCR_NAME,
                               Uptime :=
                                 parseUptimeToSeconds
                                   (getStringValue snmpDetailResult FIELD_UPTIME_NAME)\<rparr>,
                            None))))"

section \<open>Modbus matching (services package)\<close>

text \<open>
  The network as the Modbus client sees it: whether the handler connects, and what a
  read of input or holding registers returns (the bytes, or an error).
\<close>

record modbus_network =
  modbus_connect :: "ModbusConn \<Rightarrow> bool"
  modbus_read :: "ModbusConn \<Rightarrow> string \<Rightarrow> 16 word \<Rightarrow> 16 word \<Rightarrow> string option"

fun allZeros :: "string \<Rightarrow> bool" where
  "allZeros [] = True"
| "allZeros (b # data) = (if b \<noteq> CHR 0x00 then False else allZeros data)"

text \<open>\<open>GetModbusValue\<close>. Every value it stores is \<open>string(results)\<close>, so the returned
  map is an association list of strings.\<close>

fun GetModbusValue_read ::
  "modbus_network \<Rightarrow> ModbusConn \<Rightarrow> ModbusRequest list \<Rightarrow> (string \<times> string) list \<Rightarrow>
   error + (string \<times> string) list" where
  "GetModbusValue_read net conn [] data = Inr data"
| "GetModbusValue_read net conn (request # rest) data =
     (if RegisterType request \<noteq> ''input'' \<and> RegisterType request \<noteq> ''holding''
        then Inl (UnsupportedRegisterType (RegisterType request))
      else
        (case modbus_read net conn (RegisterType request) (Address request) (Length request) of
           None \<Rightarrow> Inl ReadRegisterFailed
         | Some results \<Rightarrow>
             if results = [] \<or> allZeros results then Inl InvalidData
             else GetModbusValue_read net conn rest
                    (AList.update (RegisterName request) results data)))"

definition GetModbusValue ::
  "modbus_network \<Rightarrow> ModbusSession \<Rightarrow> error + (string \<times> string) list" where
  "GetModbusValue net session =
     (let conn = ModbusSession_Conn session
      in if ModbusConn_Mode conn \<noteq> ''RTUOverTCP'' \<and> ModbusConn_Mode conn \<noteq> ''TCP''
           then Inl (UnsupportedMode (ModbusConn_Mode conn))
         else if \<not> modbus_connect net conn then Inl ConnectFailed
         else GetModbusValue_read net conn (ModbusSession_Requests session) [])"

text \<open>
  \<open>MatchModbusInstances\<close>. The loop over the targets ends with an unconditional
  \<open>break\<close>, so its body runs for the first target only. \<open>modbusConnInfos\<close> is declared
  before the loop over the ports and is not reset between ports.
\<close>

fun MatchModbus_targets ::
  "string \<Rightarrow> int \<Rightarrow> int \<Rightarrow> string \<Rightarrow> Target list \<Rightarrow> ModbusConnInfo list \<Rightarrow> ModbusConnInfo list" where
  "MatchModbus_targets ip port slaveID modelValue [] modbusConnInfos = modbusConnInfos"
| "MatchModbus_targets ip port slaveID modelValue (target # rest) modbusConnInfos =
     (if Contains modelValue (Modbus_MatchValueContains target)
        then modbusConnInfos @
               [\<lparr>MCI_IP = ip, MCI_Port = port, MCI_SlaveID = slaveID,
                 MCI_Model = Target_Model target, MCI_Manufacturer = Target_Manufacturer target,
                 MCI_InstanceType = Target_InstanceType target\<rparr>]
      else modbusConnInfos)"

fun MatchModbus_values ::
  "Target list \<Rightarrow> string \<Rightarrow> int \<Rightarrow> int \<Rightarrow> (string \<times> string) list \<Rightarrow>
   string \<times> ModbusConnInfo list \<Rightarrow> string \<times> ModbusConnInfo list" where
  "MatchModbus_values targets ip port slaveID [] st = st"
| "MatchModbus_values targets ip port slaveID ((name, val) # rest) (modelValue, modbusConnInfos) =
     MatchModbus_values targets ip port slaveID rest
       (val, MatchModbus_targets ip port slaveID val targets modbusConnInfos)"

definition matchConn :: "ModbusSession \<Rightarrow> string \<Rightarrow> int \<Rightarrow> int \<Rightarrow> ModbusSession" where
  "matchConn session ip port slaveID =
     session\<lparr>ModbusSession_Conn :=
       (ModbusSession_Conn session)
         \<lparr>ModbusConn_IP := ip, ModbusConn_Port := port,
          ModbusConn_SlaveID := word_of_int slaveID\<rparr>\<rparr>"

fun MatchModbus_slaves ::
  "modbus_network \<Rightarrow> ModbusInstanceLib \<Rightarrow> string \<Rightarrow> int \<Rightarrow> int list \<Rightarrow> ModbusConnInfo list \<Rightarrow>
   ModbusConnInfo list" where
  "MatchModbus_slaves net lib ip port [] modbusConnInfos = modbusConnInfos"
| "MatchModbus_slaves net lib ip port (slaveID # rest) modbusConnInfos =
     (case GetModbusValue net (matchConn (MatchSession lib) ip port slaveID) of
        Inl err \<Rightarrow> MatchModbus_slaves net lib ip port rest modbusConnInfos
      | Inr modbusResult \<Rightarrow>
          let (modelValue, modbusConnInfos') =
                MatchModbus_values (Modbus_Targets lib) ip port slaveID modbusResult
                  ([], modbusConnInfos)
          in if modelValue = [] then MatchModbus_slaves net lib ip port rest modbusConnInfos'
             else MatchModbus_slaves net lib ip port rest modbusConnInfos')"

fun MatchModbus_details ::
  "modbus_network \<Rightarrow> ModbusInstanceLib \<Rightarrow> string \<Rightarrow> ModbusConnInfo list \<Rightarrow>
   ScanInstanceInfo list \<Rightarrow> ScanInstanceInfo list" where
  "MatchModbus_details net lib ip [] results = results"
| "MatchModbus_details net lib ip (modbusConnInfo # rest) results =
     (let result =
            ScanInstanceInfo_zero
              \<lparr>IP := ip, Port := MCI_Port modbusConnInfo, SlaveID := MCI_SlaveID modbusConnInfo,
               Protocol := PROTOCOL_MODBUS, Model := MCI_Model modbusConnInfo,
               Manufacturer := MCI_Manufacturer modbusConnInfo,
               InstanceType := MCI_InstanceType modbusConnInfo\<rparr>
      in case GetModbusValue net
                (matchConn (DetailSession lib) ip (MCI_Port modbusConnInfo)
                   (MCI_SlaveID modbusConnInfo)) of
           Inl err \<Rightarrow> MatchModbus_details net lib ip rest results
         | Inr modbusDetailResult \<Rightarrow>
             let detail = map (\<lambda>(k, v). (k, SnmpString v)) modbusDetailResult
             in MatchModbus_details net lib ip rest
                  (results @
                     [result\<lparr>Version := getStringValue detail FIELD_VERSION_NAME,
                             SerialNumber := getStringValue detail FIELD_SERIAL_NUMBER_NAME,
                             Uptime :=
                               parseUptimeToSeconds
                                 (getStringValue detail FIELD_UPTIME_NAME)\<rparr>]))"

fun MatchModbus_ports ::
  "modbus_network \<Rightarrow> ModbusInstanceLib \<Rightarrow> ModbusSettings \<Rightarrow> string \<Rightarrow> int list \<Rightarrow>
   ModbusConnInfo list \<times> ScanInstanceInfo list \<Rightarrow> ModbusConnInfo list \<times> ScanInstanceInfo list" where
  "MatchModbus_ports net lib settings ip [] st = st"
| "MatchModbus_ports net lib settings ip (port # rest) (modbusConnInfos, results) =
     (let modbusConnInfos' =
            MatchModbus_slaves net lib ip port (ModbusSettings_SlaveID settings) modbusConnInfos
      in if modbusConnInfos' = []
           then MatchModbus_ports net lib settings ip rest (modbusConnInfos', results)
         else MatchModbus_ports net lib settings ip rest
                (modbusConnInfos', MatchModbus_details net lib ip modbusConnInfos' results))"

definition MatchModbusInstances ::
  "modbus_network \<Rightarrow> ModbusInstanceLib \<Rightarrow> ModbusSettings \<Rightarrow> string \<Rightarrow> ScanInstanceInfo list" where
  "MatchModbusInstances net lib settings ip =
     snd (MatchModbus_ports net lib settings ip (ModbusSettings_Port settings) ([], []))"

section \<open>Identification orchestrator (services package)\<close>

text \<open>The globals \<open>ScanDevice\<close> and the functions it calls read, and the outside world
  they talk to.\<close>

record globals =
  G_SNMPSettings :: SNMPSettings
  G_ModbusSettings :: ModbusSettings
  G_SNMPInstanceLib :: SNMPInstanceLib
  G_ModbusInstanceLib :: ModbusInstanceLib
  G_Dependencies :: "Dependencies list"

record world =
  snmp_net :: snmp_network
  modbus_net :: modbus_network
  arp :: "string \<Rightarrow> string option"

text \<open>
  What a run of the scanning goroutine of \<open>ScanDevice\<close> leaves behind: the results, the
  error built from \<open>scanErrors\<close>, and the addresses \<open>MatchModbusInstances\<close> was called
  with, in call order. The race of that goroutine against the timer is not part of the
  model: the value is that of the branch taken when the goroutine finishes first.
\<close>

record scan_outcome =
  scan_results :: "ScanInstanceInfo list"
  scan_error :: "error option"
  modbus_sweeps :: "string list"

fun ScanDevice_dependencies ::
  "world \<Rightarrow> globals \<Rightarrow> SnmpConnInfo \<Rightarrow> ScanInstanceInfo \<Rightarrow> Dependencies list \<Rightarrow>
   ScanInstanceInfo list \<times> error list \<times> string list \<Rightarrow>
   ScanInstanceInfo list \<times> error list \<times> string list" where
  "ScanDevice_dependencies w g snmpConnInfo snmpScanResult [] st = st"
| "ScanDevice_dependencies w g snmpConnInfo snmpScanResult (d # rest) (results, scanErrors, sweeps) =
     (if TargetName snmpScanResult = SourceTarget d then
        let modbusResults =
              MatchModbusInstances (modbus_net w) (G_ModbusInstanceLib g) (G_ModbusSettings g)
                (IP snmpScanResult)
        in if modbusResults \<noteq> []
             then ScanDevice_dependencies w g snmpConnInfo snmpScanResult rest
                    (results @ modbusResults, scanErrors, sweeps @ [IP snmpScanResult])
           else ScanDevice_dependencies w g snmpConnInfo snmpScanResult rest
                  (results,
                   scanErrors @ [ModbusNotFound (ConnInfo_IP snmpConnInfo) (SourceTarget d)],
                   sweeps @ [IP snmpScanResult])
      else ScanDevice_dependencies w g snmpConnInfo snmpScanResult rest
             (results, scanErrors, sweeps))"

definition ScanDevice :: "world \<Rightarrow> globals \<Rightarrow> SnmpConnInfo \<Rightarrow> scan_outcome" where
  "ScanDevice w g snmpConnInfo =
     (case MatchSnmpInstances (snmp_net w) (arp w) (G_SNMPInstanceLib g) (G_SNMPSettings g)
             snmpConnInfo of
        Inl p \<Rightarrow>
          \<lparr>scan_results = [],
           scan_error = Some (ScanErrors [ScanPanic (ConnInfo_IP snmpConnInfo)]),
           modbus_sweeps = []\<rparr>
      | Inr (snmpScanResult, err) \<Rightarrow>
          let (results, scanErrors, sweeps) =
                (if err = None
                   then ScanDevice_dependencies w g snmpConnInfo snmpScanResult (G_Dependencies g)
                          ([snmpScanResult], [], [])
                 else ([snmpScanResult], [], []))
          in \<lparr>scan_results = results,
              scan_error = (if scanErrors \<noteq> [] then Some (ScanErrors scanErrors) else None),
              modbus_sweeps = sweeps\<rparr>)"

section \<open>Notions used to state the properties\<close>

text \<open>The pending list \<open>saveToCSV\<close> writes to.\<close>

definition pending_file :: "bool \<Rightarrow> string" where
  "pending_file isPDU = (if isPDU then SCAN_PDU_LIST else SCAN_DEVICE_LIST)"


text \<open>An address lies in the CIDR block \<open>network/maskLen\<close> when it agrees with the network
  address on the first \<open>maskLen\<close> bits.\<close>

definition in_cidr :: "32 word \<Rightarrow> 32 word \<times> nat \<Rightarrow> bool" where
  "in_cidr a block =
     (case block of (network, maskLen) \<Rightarrow>
        drop_bit (32 - maskLen) a = drop_bit (32 - maskLen) network)"

text \<open>The number of leading zero bits of a 32-bit value.\<close>

definition leading_zeros :: "32 word \<Rightarrow> nat" where
  "leading_zeros x = length (takeWhile (\<lambda>i. \<not> bit x i) (rev [0..<32]))"

definition top_bits :: "(nat \<Rightarrow> bool) \<Rightarrow> nat \<Rightarrow> nat" where
  "top_bits P k = length (dropWhile P (rev [0..<k]))"

text \<open>
  A line of the sweep's output reports a live host when it has exactly one colon and no
  \<open>-\<close> after it; the host is the text before the colon without surrounding white space.
\<close>

definition fping_alive :: "string \<Rightarrow> bool" where
  "fping_alive line =
     (count_list line CHR '':'' = 1 \<and>
      CHR ''-'' \<notin> set (tl (dropWhile (\<lambda>c. c \<noteq> CHR '':'') line)))"

definition fping_host :: "string \<Rightarrow> string" where
  "fping_host line = TrimSpace (takeWhile (\<lambda>c. c \<noteq> CHR '':'') line)"

text \<open>The units of an uptime text and the seconds each stands for.\<close>

definition uptime_units :: "string list" where
  "uptime_units = [''days'', ''hours'', ''minutes'', ''seconds'']"

definition uptime_factor :: "string \<Rightarrow> nat" where
  "uptime_factor unit =
     (if unit = ''days'' then 86400 else if unit = ''hours'' then 3600
      else if unit = ''minutes'' then 60 else 1)"

text \<open>
  The head of the target list of the library \<open>loadModbusInstanceLib\<close> builds when there is
  at least one port and one slave ID: the first configured target whose protocol is
  Modbus. (The loader appends a target's manufacturer to \<open>mfg_targets\<close> before it tests
  membership, so that test excludes no target.)
\<close>

definition first_modbus_target :: "Target list \<Rightarrow> Target option" where
  "first_modbus_target targets =
     (case filter (\<lambda>t. Target_Protocol t = PROTOCOL_MODBUS) targets of
        [] \<Rightarrow> None
      | t # _ \<Rightarrow> Some t)"

text \<open>The bytes a match read returns when the session has one request, the connection
  is made, and the bytes are neither empty nor all zero.\<close>

definition match_read :: "modbus_network \<Rightarrow> ModbusSession \<Rightarrow> string option" where
  "match_read net session =
     (case ModbusSession_Requests session of
        [request] \<Rightarrow>
          let conn = ModbusSession_Conn session
          in if (ModbusConn_Mode conn = ''RTUOverTCP'' \<or> ModbusConn_Mode conn = ''TCP'') \<and>
                modbus_connect net conn \<and>
                (RegisterType request = ''input'' \<or> RegisterType request = ''holding'')
               then (case modbus_read net conn (RegisterType request) (Address request)
                            (Length request) of
                       None \<Rightarrow> None
                     | Some bytes \<Rightarrow> if bytes \<noteq> [] \<and> \<not> allZeros bytes then Some bytes else None)
             else None
      | _ \<Rightarrow> None)"

definition conn_info :: "string \<Rightarrow> int \<Rightarrow> int \<Rightarrow> Target \<Rightarrow> ModbusConnInfo" where
  "conn_info ip port slaveID target =
     \<lparr>MCI_IP = ip, MCI_Port = port, MCI_SlaveID = slaveID, MCI_Model = Target_Model target,
      MCI_Manufacturer = Target_Manufacturer target,
      MCI_InstanceType = Target_InstanceType target\<rparr>"

text \<open>What one (port, slave ID) pair contributes to the identified connections when one
  target is compared: that target, when the text of the match read contains its
  signature.\<close>

definition modbus_identified ::
  "modbus_network \<Rightarrow> ModbusInstanceLib \<Rightarrow> Target option \<Rightarrow> string \<Rightarrow> int \<times> int \<Rightarrow>
   ModbusConnInfo list" where
  "modbus_identified net lib candidate ip pair =
     (case pair of (port, slaveID) \<Rightarrow>
        (case match_read net (matchConn (MatchSession lib) ip port slaveID) of
           None \<Rightarrow> []
         | Some text \<Rightarrow>
             (case candidate of
                None \<Rightarrow> []
              | Some target \<Rightarrow>
                  if Contains text (Modbus_MatchValueContains target)
                    then [conn_info ip port slaveID target]
                  else [])))"

text \<open>A result record that was built from an identified connection.\<close>

definition from_conn_info :: "string \<Rightarrow> ScanInstanceInfo \<Rightarrow> ModbusConnInfo \<Rightarrow> bool" where
  "from_conn_info ip r c =
     (IP r = ip \<and> Port r = MCI_Port c \<and> SlaveID r = MCI_SlaveID c \<and>
      Protocol r = PROTOCOL_MODBUS \<and> Model r = MCI_Model c \<and>
      Manufacturer r = MCI_Manufacturer c \<and> InstanceType r = MCI_InstanceType c)"

abbreviation (input) is_modbus :: "Target \<Rightarrow> bool" where
  "is_modbus t \<equiv> Target_Protocol t = PROTOCOL_MODBUS"

text \<open>
  A candidate matches an SNMP target when it contains the target's signature; the last
  matching target of a candidate, with its index in the library; and the record built
  for a matched target.
\<close>

definition snmp_matches :: "string \<Rightarrow> Target \<Rightarrow> bool" where
  "snmp_matches c t =
     (Target_Protocol t = PROTOCOL_SNMP \<and> Contains c (SNMP_MatchValueContains t))"

definition last_match :: "string \<Rightarrow> nat \<Rightarrow> Target list \<Rightarrow> (nat \<times> Target) option" where
  "last_match c i ts =
     (case filter (\<lambda>p. snmp_matches c (snd p)) (enumerate i ts) of
        [] \<Rightarrow> None
      | p # ps \<Rightarrow> Some (last (p # ps)))"

definition matched_info :: "string \<Rightarrow> int \<Rightarrow> string \<Rightarrow> Target \<Rightarrow> ScanInstanceInfo" where
  "matched_info ip port protocol target =
     ScanInstanceInfo_zero
       \<lparr>TargetName := Target_Name target, IP := ip, Port := port, Protocol := protocol,
        Model := Target_Model target, Manufacturer := Target_Manufacturer target,
        InstanceType := Target_InstanceType target\<rparr>"

section \<open>Example data\<close>

definition example_pending :: filesystem where
  "example_pending =
     [SCAN_PDU_LIST \<mapsto>
        [pending_pdu_header,
         [''10.0.0.7:161'', ''PDUE428'', ''10.0.0.7'', ''snmp'', ''1.0'', ''SN7'', ''aa:bb:cc:00:00:07'',
          ''pdu'', ''DELTA'', ''60'', ''2025-01-01T00:00:00Z'']]]"


definition example_result :: "string \<Rightarrow> ScanInstanceInfo" where
  "example_result instanceType =
     ScanInstanceInfo_zero\<lparr>IPKey := ''10.0.0.9:161'', IP := ''10.0.0.9'', Port := 161,
       Protocol := ''snmp'', Model := ''M1'', Version := ''7.1'', SerialNumber := ''SN42'',
       Uptime := 3600, InstanceType := instanceType, Manufacturer := ''ACME'',
       MacAddress := ''aa:bb:cc:00:00:09''\<rparr>"

definition example_target :: "string \<Rightarrow> string \<Rightarrow> string \<Rightarrow> Target" where
  "example_target name protocol signature =
     \<lparr>Target_Name = name, Target_InstanceType = ''pdu'', Target_Manufacturer = ''ACME'',
      Target_Model = ''Model-'' @ name, Target_Protocol = protocol,
      SNMP_MatchValueContains = signature, SNMP_MatchOID = ''1.3.6.1.2.1.1.1.0'',
      Modbus_MatchValueContains = signature, Modbus_MatchRegisterType = ''input'',
      Modbus_MatchAddress = 1024, Modbus_MatchLength = 8\<rparr>"

definition example_snmp_settings :: SNMPSettings where
  "example_snmp_settings =
     \<lparr>SNMPSettings_Port = 161, SNMPSettings_Community = ''public'', SNMPSettings_Version = 2\<rparr>"

definition example_modbus_settings :: ModbusSettings where
  "example_modbus_settings =
     \<lparr>ModbusSettings_Port = [7000], ModbusSettings_Mode = ''RTUOverTCP'',
      ModbusSettings_SlaveID = [0, 1]\<rparr>"

definition example_targets :: "Target list" where
  "example_targets = [example_target ''GW'' ''snmp'' ''WCM'', example_target ''PDU-M'' ''modbus'' ''PDU'']"

definition example_globals :: "string \<Rightarrow> globals" where
  "example_globals source =
     \<lparr>G_SNMPSettings = example_snmp_settings,
      G_ModbusSettings = example_modbus_settings,
      G_SNMPInstanceLib = loadSNMPInstanceLib example_snmp_settings example_targets,
      G_ModbusInstanceLib = loadModbusInstanceLib example_modbus_settings example_targets,
      G_Dependencies =
        [\<lparr>Dependencies_Protocol = ''modbus'', SourceTarget = source, LinkedTarget = [''PDU-M'']\<rparr>]\<rparr>"

definition example_world :: "bool \<Rightarrow> world" where
  "example_world reachable =
     \<lparr>snmp_net =
        \<lparr>snmp_connect = (\<lambda>c. reachable),
         snmp_get = (\<lambda>c oids. if reachable then Some (map (\<lambda>oid. SnmpString ''WCM-421'') oids) else None)\<rparr>,
      modbus_net = \<lparr>modbus_connect = (\<lambda>c. False), modbus_read = (\<lambda>c t a l. None)\<rparr>,
      arp = (\<lambda>ip. None)\<rparr>"

definition example_conn :: SnmpConnInfo where
  "example_conn =
     \<lparr>ConnInfo_IP = ''10.0.0.5'', ConnInfo_Port = 161, ConnInfo_Community = ''public'',
      ConnInfo_Version = 2\<rparr>"

definition example_modbus_world :: modbus_network where
  "example_modbus_world =
     \<lparr>modbus_connect = (\<lambda>c. True),
      modbus_read =
        (\<lambda>c t a l. if ModbusConn_Port c = 7000 \<and> ModbusConn_SlaveID c = 1 \<and> a = 1024
                    then Some ''PDU1315'' else None)\<rparr>"

definition example_modbus_pair :: "Target list" where
  "example_modbus_pair =
     [example_target ''PDU-Z'' ''modbus'' ''ZZZ'', example_target ''PDU-M'' ''modbus'' ''PDU'']"

definition example_modbus_pair_swapped :: "Target list" where
  "example_modbus_pair_swapped =
     [example_target ''PDU-M'' ''modbus'' ''PDU'', example_target ''PDU-Z'' ''modbus'' ''ZZZ'']"


section \<open>Properties of strings and number formatting\<close>

lemma Split_not_Nil: "Split s c \<noteq> []"
  by (induction s) (auto split: list.splits)

lemma Split_eq:
  "Split s c = takeWhile (\<lambda>x. x \<noteq> c) s #
     (if c \<in> set s then Split (tl (dropWhile (\<lambda>x. x \<noteq> c) s)) c else [])"
proof (induction s)
  case Nil
  then show ?case by simp
next
  case (Cons a s)
  show ?case
  proof (cases "a = c")
    case True
    then show ?thesis by simp
  next
    case False
    with Cons show ?thesis by (cases "Split s c") (auto simp: Split_not_Nil)
  qed
qed

lemma Split_no_sep: "c \<notin> set s \<Longrightarrow> Split s c = [s]"
  by (subst Split_eq) auto

lemma Split_append_sep: "c \<notin> set a \<Longrightarrow> Split (a @ c # b) c = a # Split b c"
  by (induction a) (auto simp: Split_not_Nil split: list.splits)

lemma digits_value_snoc: "digits_value (xs @ [c]) = digits_value xs * 10 + digit_value c"
  by (simp add: digits_value_def)

lemma digit_char_props:
  assumes "d < 10"
  shows "digit_value (digit_char d) = d" "isDigit (digit_char d)"
proof -
  from assms have "d \<in> {0, 1, 2, 3, 4, 5, 6, 7, 8, 9}" by auto
  then show "digit_value (digit_char d) = d" "isDigit (digit_char d)"
    by (auto simp: digit_value_def digit_char_def isDigit_def)
qed

lemma isDigit_not_special:
  "isDigit c \<Longrightarrow> c \<noteq> CHR ''('' \<and> c \<noteq> CHR '')'' \<and> c \<noteq> CHR '' '' \<and> c \<noteq> CHR ''+'' \<and> c \<noteq> CHR ''-''"
  by (auto simp: isDigit_def)

lemma showNat_props:
  "showNat n \<noteq> [] \<and> list_all isDigit (showNat n) \<and> digits_value (showNat n) = n"
proof (induction n rule: showNat.induct)
  case (1 n)
  show ?case
  proof (cases "n < 10")
    case True
    then show ?thesis
      by (subst (1 2 3) showNat.simps) (simp add: digit_char_props digits_value_def)
  next
    case False
    have m: "n mod 10 < 10" by simp
    from False 1 have IH: "list_all isDigit (showNat (n div 10))"
      "digits_value (showNat (n div 10)) = n div 10" by simp_all
    show ?thesis
      using False IH m
      by (subst (1 2 3) showNat.simps) (simp add: digits_value_snoc digit_char_props)
  qed
qed

lemma showNat_no_leading_zero: "0 < n \<Longrightarrow> hd (showNat n) \<noteq> CHR ''0''"
proof (induction n rule: showNat.induct)
  case (1 n)
  show ?case
  proof (cases "n < 10")
    case True
    with 1(2) have "n \<in> {1, 2, 3, 4, 5, 6, 7, 8, 9}" by auto
    then show ?thesis by (subst showNat.simps) (auto simp: digit_char_def)
  next
    case False
    then have "0 < n div 10" by simp
    with False 1 have "hd (showNat (n div 10)) \<noteq> CHR ''0''" by simp
    moreover have "showNat (n div 10) \<noteq> []" using showNat_props by blast
    ultimately show ?thesis using False by (subst showNat.simps) simp
  qed
qed

lemma showNat_no_sep: "CHR ''.'' \<notin> set (showNat n)" "CHR ''/'' \<notin> set (showNat n)"
proof -
  have "list_all isDigit (showNat n)" using showNat_props by blast
  then have "\<forall>c\<in>set (showNat n). isDigit c" by (simp add: list_all_iff)
  then show "CHR ''.'' \<notin> set (showNat n)" "CHR ''/'' \<notin> set (showNat n)"
    by (auto simp: isDigit_def)
qed

lemma ParseInt_showNat:
  assumes "n < 2 ^ 63"
  shows "ParseInt (showNat n) = Some (int n)"
proof -
  from showNat_props [of n] have ne: "showNat n \<noteq> []" and d: "list_all isDigit (showNat n)"
    and v: "digits_value (showNat n) = n" by simp_all
  from ne d have "isDigit (hd (showNat n))" by (cases "showNat n") simp_all
  then have h: "hd (showNat n) \<noteq> CHR ''+''" "hd (showNat n) \<noteq> CHR ''-''"
    using isDigit_not_special by blast+
  have "int n < 2 ^ 63" using assms by (simp add: of_nat_less_numeral_power_cancel_iff)
  then show ?thesis
    by (simp add: ParseInt_def ParseUint10_def Let_def ne d v h)
qed

section \<open>Properties of deduplication and persistence\<close>

lemmas eval_format = FormatInt_def showNat.simps digit_char_def


lemma FilteredResults_loop_eq:
  "FilteredResults_loop keys m acc rs =
     acc @ map (\<lambda>r. r\<lparr>IPKey := ipKey_of r\<rparr>)
             (filter (\<lambda>r. Model r \<noteq> DEFAULT_UNKNOWN_VALUE \<and> ipKey_of r \<notin> set keys) rs)"
  by (induction rs arbitrary: acc) (simp_all add: Let_def)

lemma FilteredResults_eq:
  "FilteredResults keys m rs =
     map (\<lambda>r. r\<lparr>IPKey := ipKey_of r\<rparr>)
       (filter (\<lambda>r. Model r \<noteq> DEFAULT_UNKNOWN_VALUE \<and> ipKey_of r \<notin> set keys) rs)"
  by (simp add: FilteredResults_def FilteredResults_loop_eq)

text \<open>
  C10. The list returned by \<open>FilteredResults\<close> is the same for any two contents of the
  registered-results map \<open>global.ScanResults\<close>, given the same input list and the same
  \<open>global.ScanIPKeyList\<close>: the membership test on the map comes after the record has
  been appended and only continues the loop.
\<close>

theorem FilteredResults_independent_of_ScanResults:
  "FilteredResults ScanIPKeyList ScanResults1 results =
   FilteredResults ScanIPKeyList ScanResults2 results"
  by (simp add: FilteredResults_eq)




lemma saveToCSV_fs:
  "snd (saveToCSV co t fs rs isPDU) =
     (if co (pending_file isPDU) then fs
      else fs(pending_file isPDU \<mapsto>
             (case fs (pending_file isPDU) of
                None \<Rightarrow> [if isPDU then pending_pdu_header else pending_device_header]
              | Some old \<Rightarrow> old) @ map (csv_record isPDU t) rs))"
  by (auto simp: saveToCSV_def Let_def pending_file_def split: option.splits)















text \<open>
  C9, as the code has it. A successful \<open>saveToCSV\<close> leaves every other file alone and
  sets its pending list to the records the file had, or to the header alone if the file
  did not exist, followed by one record per result in input order. A record of the PDU
  list has the eleven columns identity key, model, IP, protocol, version, serial number,
  MAC address, instance type, manufacturer, uptime in seconds and update time; a record
  of the device list has the nine columns identity key, IP, protocol, model, MAC
  address, instance type, manufacturer, uptime in seconds and update time. When the file
  cannot be opened nothing changes.
\<close>

theorem saveToCSV_appends_rows:
  assumes "saveToCSV cannot_open currentTime fs results isPDU = (err, fs')"
  shows "(cannot_open (pending_file isPDU) \<longrightarrow> err = Some OpenFileFailed \<and> fs' = fs) \<and>
         (\<not> cannot_open (pending_file isPDU) \<longrightarrow>
            err = None \<and>
            (\<forall>f. f \<noteq> pending_file isPDU \<longrightarrow> fs' f = fs f) \<and>
            fs' (pending_file isPDU) =
              Some ((case fs (pending_file isPDU) of
                       None \<Rightarrow> [if isPDU then pending_pdu_header else pending_device_header]
                     | Some existing \<Rightarrow> existing) @
                    map (\<lambda>r. if isPDU
                               then [IPKey r, Model r, IP r, Protocol r, Version r, SerialNumber r,
                                     MacAddress r, InstanceType r, Manufacturer r,
                                     FormatInt (sint (Uptime r)), currentTime]
                             else [IPKey r, IP r, Protocol r, Model r, MacAddress r,
                                   InstanceType r, Manufacturer r, FormatInt (sint (Uptime r)),
                                   currentTime])
                      results))"
proof -
  have rec: "csv_record isPDU currentTime =
      (\<lambda>r. if isPDU
             then [IPKey r, Model r, IP r, Protocol r, Version r, SerialNumber r,
                   MacAddress r, InstanceType r, Manufacturer r,
                   FormatInt (sint (Uptime r)), currentTime]
           else [IPKey r, IP r, Protocol r, Model r, MacAddress r,
                 InstanceType r, Manufacturer r, FormatInt (sint (Uptime r)), currentTime])"
    by (rule ext) (simp add: csv_record_def)
  have e: "err = fst (saveToCSV cannot_open currentTime fs results isPDU)"
    and f: "fs' = snd (saveToCSV cannot_open currentTime fs results isPDU)"
    using assms by simp_all
  have "err = (if cannot_open (pending_file isPDU) then Some OpenFileFailed else None)"
    unfolding e by (simp add: saveToCSV_def Let_def pending_file_def)
  then show ?thesis
    unfolding f saveToCSV_fs rec [symmetric] by simp
qed

text \<open>The theorem at an existing PDU list: the header is not written again and the
  new record follows the old one.\<close>

theorem saveToCSV_appends_rows_witness:
  "\<not> (\<lambda>f. False) (pending_file True) \<and>
   snd (saveToCSV (\<lambda>f. False) ''2025-02-02T00:00:00Z'' example_pending [example_result ''pdu''] True)
     SCAN_PDU_LIST =
   Some [pending_pdu_header,
         [''10.0.0.7:161'', ''PDUE428'', ''10.0.0.7'', ''snmp'', ''1.0'', ''SN7'', ''aa:bb:cc:00:00:07'',
          ''pdu'', ''DELTA'', ''60'', ''2025-01-01T00:00:00Z''],
         [''10.0.0.9:161'', ''M1'', ''10.0.0.9'', ''snmp'', ''7.1'', ''SN42'', ''aa:bb:cc:00:00:09'',
          ''pdu'', ''ACME'', ''3600'', ''2025-02-02T00:00:00Z'']]"
proof -
  obtain err fs' where
    s: "saveToCSV (\<lambda>f. False) ''2025-02-02T00:00:00Z'' example_pending [example_result ''pdu''] True
          = (err, fs')"
    by (cases "saveToCSV (\<lambda>f. False) ''2025-02-02T00:00:00Z'' example_pending
                 [example_result ''pdu''] True") blast
  from saveToCSV_appends_rows [OF s]
  have "fs' (pending_file True) =
          Some ((case example_pending (pending_file True) of
                   None \<Rightarrow> [pending_pdu_header] | Some existing \<Rightarrow> existing) @
                map (\<lambda>r. [IPKey r, Model r, IP r, Protocol r, Version r, SerialNumber r,
                          MacAddress r, InstanceType r, Manufacturer r,
                          FormatInt (sint (Uptime r)), ''2025-02-02T00:00:00Z''])
                  [example_result ''pdu''])"
    by simp
  then have "fs' SCAN_PDU_LIST =
      Some [pending_pdu_header,
         [''10.0.0.7:161'', ''PDUE428'', ''10.0.0.7'', ''snmp'', ''1.0'', ''SN7'', ''aa:bb:cc:00:00:07'',
          ''pdu'', ''DELTA'', ''60'', ''2025-01-01T00:00:00Z''],
         [''10.0.0.9:161'', ''M1'', ''10.0.0.9'', ''snmp'', ''7.1'', ''SN42'', ''aa:bb:cc:00:00:09'',
          ''pdu'', ''ACME'', ''3600'', ''2025-02-02T00:00:00Z'']]"
    by (simp add: pending_file_def example_pending_def example_result_def
          ScanInstanceInfo_zero_def eval_format)
  with s show ?thesis by simp
qed

text \<open>A record appended to the device list has nine columns, without version and
  serial number.\<close>

theorem saveToCSV_device_row_counterexample:
  "snd (saveToCSV (\<lambda>f. False) ''2025-02-02T00:00:00Z'' Map.empty [example_result ''switch''] False)
     SCAN_DEVICE_LIST =
   Some [[''ip_key'', ''ip'', ''protocol'', ''model'', ''mac_address'', ''instance_type'',
          ''manufacturer'', ''uptime'', ''updated_at''],
         [''10.0.0.9:161'', ''10.0.0.9'', ''snmp'', ''M1'', ''aa:bb:cc:00:00:09'', ''switch'',
          ''ACME'', ''3600'', ''2025-02-02T00:00:00Z'']]"
  by (simp add: saveToCSV_fs pending_file_def pending_device_header_def csv_record_def
        example_result_def ScanInstanceInfo_zero_def eval_format)

section \<open>Properties of the CIDR and range utility\<close>

lemma top_bits_Suc:
  "top_bits P (Suc k) = (if P k then top_bits P k else Suc k)"
  by (simp add: top_bits_def)

lemma top_bits_le: "top_bits P k \<le> k"
  by (induction k) (simp_all add: top_bits_def top_bits_Suc [unfolded top_bits_def])

lemma top_bits_above: "top_bits P k \<le> i \<Longrightarrow> i < k \<Longrightarrow> P i"
proof (induction k)
  case 0
  then show ?case by simp
next
  case (Suc k)
  show ?case
  proof (cases "P k")
    case True
    then have eq: "top_bits P (Suc k) = top_bits P k" by (simp add: top_bits_Suc)
    show ?thesis
    proof (cases "i = k")
      case True
      with \<open>P k\<close> show ?thesis by simp
    next
      case False
      with Suc.prems have "i < k" by simp
      with Suc.IH Suc.prems eq show ?thesis by simp
    qed
  next
    case False
    then have "top_bits P (Suc k) = Suc k" by (simp add: top_bits_Suc)
    with Suc.prems show ?thesis by simp
  qed
qed

lemma top_bits_top: "0 < top_bits P k \<Longrightarrow> \<not> P (top_bits P k - 1)"
proof (induction k)
  case 0
  then show ?case by (simp add: top_bits_def)
next
  case (Suc k)
  then show ?case by (cases "P k") (simp_all add: top_bits_Suc)
qed

lemma Len32_top_bits: "Len32 x = top_bits (\<lambda>i. \<not> bit x i) 32"
  unfolding Len32_def top_bits_def ..

lemma Len32_le: "Len32 x \<le> 32"
  unfolding Len32_top_bits by (rule top_bits_le)

lemma Len32_above: "Len32 x \<le> i \<Longrightarrow> \<not> bit x i"
proof (cases "i < 32")
  case True
  assume "Len32 x \<le> i"
  then have "top_bits (\<lambda>i. \<not> bit x i) 32 \<le> i" unfolding Len32_top_bits .
  from top_bits_above [OF this True] show ?thesis .
next
  case False
  have "bit x i \<Longrightarrow> i < 32" using bit_imp_le_length [of x i] by simp
  with False show ?thesis by blast
qed

lemma Len32_top: "0 < Len32 x \<Longrightarrow> bit x (Len32 x - 1)"
  unfolding Len32_top_bits using top_bits_top [of "\<lambda>i. \<not> bit x i" 32] by blast

lemma drop_bit_word_mono:
  fixes a b :: "32 word"
  assumes "a \<le> b"
  shows "drop_bit k a \<le> drop_bit k b"
proof -
  have d: "unat (drop_bit k w) = unat w div 2 ^ k" for w :: "32 word"
    using unat_drop_bit_eq [of k w] drop_bit_eq_div [of k "unat w"] by (rule trans)
  have "unat a \<le> unat b" using assms by (simp add: word_le_nat_alt)
  then have "unat a div 2 ^ k \<le> unat b div 2 ^ k" by (rule div_le_mono)
  then show ?thesis by (simp only: word_le_nat_alt d)
qed

lemma drop_bit_eq_above_Len32:
  fixes s e :: "32 word"
  shows "drop_bit (Len32 (s XOR e)) s = drop_bit (Len32 (s XOR e)) e"
proof (rule bit_word_eqI)
  fix n
  have "\<not> bit (s XOR e) (Len32 (s XOR e) + n)"
    by (rule Len32_above) simp
  then show "bit (drop_bit (Len32 (s XOR e)) s) n = bit (drop_bit (Len32 (s XOR e)) e) n"
    by (simp add: bit_simps)
qed

lemma drop_bit_network:
  fixes s :: "32 word"
  shows "drop_bit k (s AND push_bit k (NOT 0)) = drop_bit k s"
proof (rule bit_word_eqI)
  fix n
  assume "n < LENGTH(32)"
  show "bit (drop_bit k (s AND push_bit k (NOT 0))) n = bit (drop_bit k s) n"
    using bit_imp_le_length [of s "k + n"]
    by (auto simp add: bit_simps)
qed

lemma take_bit_network:
  fixes s :: "32 word"
  shows "take_bit k (s AND push_bit k (NOT 0)) = 0"
  by (rule bit_word_eqI) (auto simp add: bit_simps)

lemma block_snd: "snd (CalculateCIDR_block s e) = 32 - Len32 (s XOR e)"
  by (simp add: CalculateCIDR_block_def Let_def)

lemma block_fst:
  "fst (CalculateCIDR_block s e) = s AND push_bit (Len32 (s XOR e)) (NOT 0)"
proof -
  have k: "32 - (32 - Len32 (s XOR e)) = Len32 (s XOR e)"
    using Len32_le [of "s XOR e"] by simp
  show ?thesis by (simp only: CalculateCIDR_block_def Let_def fst_conv k)
qed

lemma block_covers:
  assumes "s \<le> a" "a \<le> e"
  shows "in_cidr a (CalculateCIDR_block s e)"
proof -
  let ?k = "Len32 (s XOR e)"
  have k: "32 - (32 - ?k) = ?k" using Len32_le [of "s XOR e"] by simp
  have "drop_bit ?k s \<le> drop_bit ?k a" "drop_bit ?k a \<le> drop_bit ?k e"
    using assms by (simp_all add: drop_bit_word_mono)
  then have "drop_bit ?k a = drop_bit ?k s"
    using drop_bit_eq_above_Len32 [of s e] by simp
  then have "drop_bit ?k a = drop_bit ?k (fst (CalculateCIDR_block s e))"
    by (simp only: block_fst drop_bit_network)
  then have "drop_bit (32 - snd (CalculateCIDR_block s e)) a =
             drop_bit (32 - snd (CalculateCIDR_block s e)) (fst (CalculateCIDR_block s e))"
    by (simp only: block_snd k)
  then show ?thesis
    by (simp add: in_cidr_def split_def)
qed

lemma block_minimal:
  assumes "snd (CalculateCIDR_block s e) < len'" "len' \<le> 32"
  shows "\<not> (in_cidr s (net', len') \<and> in_cidr e (net', len'))"
proof
  let ?k = "Len32 (s XOR e)"
  let ?j = "32 - len'"
  assume "in_cidr s (net', len') \<and> in_cidr e (net', len')"
  then have eq: "drop_bit ?j s = drop_bit ?j e"
    by (simp add: in_cidr_def)
  from assms have lt: "?j < ?k"
    using Len32_le [of "s XOR e"] by (simp add: block_snd)
  then have pos: "0 < ?k" by simp
  from lt have idx: "?j + (?k - 1 - ?j) = ?k - 1" by simp
  have "bit (drop_bit ?j s) (?k - 1 - ?j) = bit (drop_bit ?j e) (?k - 1 - ?j)"
    using eq by simp
  then have "bit s (?k - 1) = bit e (?k - 1)"
    by (simp only: bit_drop_bit_eq o_def idx)
  moreover have "bit (s XOR e) (?k - 1)" using pos by (rule Len32_top)
  ultimately show False by (simp add: bit_xor_iff)
qed

lemma loop_max_None_aux:
  "ExpandRange_loop i e ips = Some r \<Longrightarrow> e \<noteq> - 1"
proof (rule ExpandRange_loop.raw_induct [where P = "\<lambda>i e ips r. e \<noteq> - 1"])
  fix loop :: "32 word \<Rightarrow> 32 word \<Rightarrow> string list \<Rightarrow> string list option"
  fix i e :: "32 word" and ips r :: "string list"
  assume IH: "\<And>i e ips r. loop i e ips = Some r \<Longrightarrow> e \<noteq> - 1"
  assume step: "(if i \<le> e then loop (i + 1) e (ips @ [IP_String (uint32ToIP i)]) else Some ips) = Some r"
  show "e \<noteq> - 1"
  proof (cases "i \<le> e")
    case True
    with step have "loop (i + 1) e (ips @ [IP_String (uint32ToIP i)]) = Some r" by simp
    then show ?thesis by (rule IH)
  next
    case False
    then show ?thesis by auto
  qed
qed

lemma loop_max_None: "ExpandRange_loop i (- 1) ips = None"
  using loop_max_None_aux [of i "- 1" ips] by (cases "ExpandRange_loop i (- 1) ips") auto

lemma loop_returns:
  fixes i e :: "32 word"
  assumes "e \<noteq> - 1" "unat i \<le> Suc (unat e)"
  shows "ExpandRange_loop i e ips =
           Some (ips @ map (\<lambda>n. IP_String (uint32ToIP (word_of_nat n))) [unat i..<Suc (unat e)])"
  using assms(2)
proof (induction "Suc (unat e) - unat i" arbitrary: i ips)
  case 0
  then have "unat i = Suc (unat e)" by simp
  then have "\<not> i \<le> e" by (simp add: word_le_nat_alt)
  then show ?case using \<open>unat i = Suc (unat e)\<close>
    by (subst ExpandRange_loop.simps) simp
next
  case (Suc d)
  then have le: "unat i \<le> unat e" by simp
  then have ie: "i \<le> e" by (simp add: word_le_nat_alt)
  have "unat e < 2 ^ 32 - 1"
  proof -
    have "unat e < 2 ^ 32" using unsigned_less [of e] by simp
    moreover have "unat e \<noteq> unat (- 1 :: 32 word)"
      using assms(1) by (simp only: word_unat_eq_iff [symmetric] not_False_eq_True)
    ultimately show ?thesis by (simp add: unsigned_minus_1_eq_mask mask_eq_exp_minus_1)
  qed
  with le have u: "unat (i + 1) = Suc (unat i)"
    by (simp add: unat_word_ariths)
  have d: "d = Suc (unat e) - unat (i + 1)" using Suc(2) u by simp
  have b: "unat (i + 1) \<le> Suc (unat e)" using le u by simp
  have "ExpandRange_loop i e ips = ExpandRange_loop (i + 1) e (ips @ [IP_String (uint32ToIP i)])"
    using ie by (subst ExpandRange_loop.simps) simp
  also have "\<dots> = Some ((ips @ [IP_String (uint32ToIP i)]) @
       map (\<lambda>n. IP_String (uint32ToIP (word_of_nat n))) [unat (i + 1)..<Suc (unat e)])"
    by (rule Suc(1) [OF d b])
  also have "\<dots> = Some (ips @ map (\<lambda>n. IP_String (uint32ToIP (word_of_nat n))) [unat i..<Suc (unat e)])"
  proof -
    have "unat i < Suc (unat e)" using le by simp
    then have "[unat i..<Suc (unat e)] = unat i # [Suc (unat i)..<Suc (unat e)]"
      by (rule upt_conv_Cons)
    then show ?thesis by (simp add: u)
  qed
  finally show ?case .
qed

lemmas eval_parse = parseIPv4_def parse_octet_def isDigit_def digits_value_def digit_value_def

lemma leading_zeros_Len32: "leading_zeros x = 32 - Len32 x"
proof -
  have "length (takeWhile (\<lambda>i. \<not> bit x i) (rev [0..<32])) +
        length (dropWhile (\<lambda>i. \<not> bit x i) (rev [0..<32])) = length (rev [0..<32])"
    by (simp only: length_append [symmetric] takeWhile_dropWhile_id)
  then show ?thesis by (simp add: leading_zeros_def Len32_def del: upt_rec_numeral)
qed

lemma block_aligned:
  "take_bit (32 - snd (CalculateCIDR_block s e)) (fst (CalculateCIDR_block s e)) = 0"
proof -
  have k: "32 - (32 - Len32 (s XOR e)) = Len32 (s XOR e)"
    using Len32_le [of "s XOR e"] by simp
  show ?thesis by (simp only: block_fst block_snd k take_bit_network)
qed

lemma block_prefix:
  "drop_bit (32 - snd (CalculateCIDR_block s e)) (fst (CalculateCIDR_block s e)) =
   drop_bit (32 - snd (CalculateCIDR_block s e)) s"
proof -
  have k: "32 - (32 - Len32 (s XOR e)) = Len32 (s XOR e)"
    using Len32_le [of "s XOR e"] by simp
  show ?thesis by (simp only: block_fst block_snd k drop_bit_network)
qed

lemma ipToUint32_uint32ToIP: "ipToUint32 (uint32ToIP n) = n"
proof (rule bit_word_eqI)
  fix i
  assume "i < LENGTH(32)"
  then have i: "i < 32" by simp
  consider "i < 8" | "8 \<le> i" "i < 16" | "16 \<le> i" "i < 24" | "24 \<le> i" by linarith
  then show "bit (ipToUint32 (uint32ToIP n)) i = bit n i"
  proof cases
    case 1
    then show ?thesis by (auto simp: ipToUint32_def uint32ToIP_def bit_simps)
  next
    case 2
    then show ?thesis by (auto simp: ipToUint32_def uint32ToIP_def bit_simps)
  next
    case 3
    then show ?thesis by (auto simp: ipToUint32_def uint32ToIP_def bit_simps)
  next
    case 4
    then show ?thesis using i by (auto simp: ipToUint32_def uint32ToIP_def bit_simps)
  qed
qed

lemma uint32ToIP_ipToUint32: "uint32ToIP (ipToUint32 ip) = ip"
proof (cases ip)
  case (fields b0 b1 b2 b3)
  have "ucast (drop_bit 24 (ipToUint32 (b0, b1, b2, b3))) = b0"
    unfolding ipToUint32_def by (rule bit_word_eqI) (auto simp: bit_simps dest: bit_imp_le_length)
  moreover have "ucast (drop_bit 16 (ipToUint32 (b0, b1, b2, b3))) = b1"
    unfolding ipToUint32_def by (rule bit_word_eqI) (auto simp: bit_simps dest: bit_imp_le_length)
  moreover have "ucast (drop_bit 8 (ipToUint32 (b0, b1, b2, b3))) = b2"
    unfolding ipToUint32_def by (rule bit_word_eqI) (auto simp: bit_simps dest: bit_imp_le_length)
  moreover have "ucast (ipToUint32 (b0, b1, b2, b3)) = b3"
    unfolding ipToUint32_def by (rule bit_word_eqI) (auto simp: bit_simps dest: bit_imp_le_length)
  ultimately show ?thesis by (simp add: uint32ToIP_def fields)
qed

lemma unat_ipToUint32:
  "unat (ipToUint32 (b0, b1, b2, b3)) =
     unat b0 * 2 ^ 24 + unat b1 * 2 ^ 16 + unat b2 * 2 ^ 8 + unat b3"
proof -
  let ?a = "push_bit 24 (ucast b0) :: 32 word" and ?b = "push_bit 16 (ucast b1) :: 32 word"
  and ?c = "push_bit 8 (ucast b2) :: 32 word" and ?d = "ucast b3 :: 32 word"
  have 1: "?c + ?d = ?c OR ?d"
    by (rule disjunctive_add) (auto simp: bit_simps dest: bit_imp_le_length)
  have 2: "?b + (?c OR ?d) = ?b OR (?c OR ?d)"
    by (rule disjunctive_add) (auto simp: bit_simps dest: bit_imp_le_length)
  have 3: "?a + (?b OR (?c OR ?d)) = ?a OR (?b OR (?c OR ?d))"
    by (rule disjunctive_add) (auto simp: bit_simps dest: bit_imp_le_length)
  have "ipToUint32 (b0, b1, b2, b3) = ?a OR (?b OR (?c OR ?d))"
    by (simp add: ipToUint32_def or.assoc)
  also have "\<dots> = ?a + (?b + (?c + ?d))"
    by (simp only: 1 2 3)
  finally have e: "ipToUint32 (b0, b1, b2, b3) = ?a + (?b + (?c + ?d))" .
  have b: "unat b0 < 256" "unat b1 < 256" "unat b2 < 256" "unat b3 < 256"
    using unsigned_less [of b0] unsigned_less [of b1] unsigned_less [of b2] unsigned_less [of b3]
    by simp_all
  let ?m = "unat b0 * 2 ^ 24 + unat b1 * 2 ^ 16 + unat b2 * 2 ^ 8 + unat b3"
  have w: "?a + (?b + (?c + ?d)) = word_of_nat ?m"
    by (simp add: push_bit_eq_mult ac_simps)
  have "?m < 2 ^ 32" using b by simp
  then have "?m < 2 ^ LENGTH(32)" by simp
  then have "unat (word_of_nat ?m :: 32 word) = ?m"
    by (simp only: unat_of_nat mod_less)
  then show ?thesis unfolding e w .
qed

lemma parse_octet_showNat: "parse_octet (showNat (unat (b :: 8 word))) = Some b"
proof -
  let ?s = "showNat (unat b)"
  from showNat_props [of "unat b"] have ne: "?s \<noteq> []" and d: "list_all isDigit ?s"
    and v: "digits_value ?s = unat b" by simp_all
  have z: "\<not> (length ?s > 1 \<and> hd ?s = CHR ''0'')"
  proof (cases "unat b = 0")
    case True
    then show ?thesis by (simp add: showNat.simps)
  next
    case False
    then show ?thesis using showNat_no_leading_zero [of "unat b"] by simp
  qed
  have "unat b < 256" using unsigned_less [of b] by simp
  then show ?thesis using ne d z by (simp add: parse_octet_def v)
qed

lemma parseIPv4_IP_String: "parseIPv4 (IP_String ip) = Some ip"
proof (cases ip)
  case (fields b0 b1 b2 b3)
  have "Split (IP_String (b0, b1, b2, b3)) CHR ''.'' =
      [showNat (unat b0), showNat (unat b1), showNat (unat b2), showNat (unat b3)]"
    by (simp add: IP_String_def Split_append_sep Split_no_sep showNat_no_sep)
  then show ?thesis by (simp add: parseIPv4_def parse_octet_showNat fields)
qed

lemma IP_String_no_slash: "CHR ''/'' \<notin> set (IP_String ip)"
  by (cases ip) (simp add: IP_String_def showNat_no_sep)

text \<open>
  C4. Whatever the IPv4 parser: if either text does not parse the result is the
  invalid-address error; if the start is above the end (as unsigned 32-bit integers) it
  is the range-order error; otherwise the result is the text \<open>network/maskLen\<close>: the
  dotted decimal of the four bytes of \<open>network\<close> (the bytes whose 32-bit integer is
  \<open>network\<close>, and which the dotted-decimal parser reads back from that text), a slash
  and the decimal of \<open>maskLen\<close>. Here \<open>maskLen\<close> is the number of leading zero bits of the
  XOR of the two addresses and \<open>network\<close> is the start address masked to that prefix,
  every address from start to end lies in that block, and no block with a longer prefix
  contains both endpoints. The 32-bit integer of an address is its big-endian value.
\<close>

theorem CalculateCIDR_smallest_covering_block:
  "(ParseIP_To4 startIP = None \<or> ParseIP_To4 endIP = None \<longrightarrow>
      CalculateCIDR ParseIP_To4 startIP endIP = Inl InvalidAddress) \<and>
   (\<forall>start end.
      ParseIP_To4 startIP = Some start \<and> ParseIP_To4 endIP = Some end \<and>
      ipToUint32 end < ipToUint32 start \<longrightarrow>
      CalculateCIDR ParseIP_To4 startIP endIP = Inl RangeOrder) \<and>
   (\<forall>start end.
      ParseIP_To4 startIP = Some start \<and> ParseIP_To4 endIP = Some end \<and>
      ipToUint32 start \<le> ipToUint32 end \<longrightarrow>
      (\<exists>network maskLen.
         CalculateCIDR ParseIP_To4 startIP endIP =
           Inr (IP_String (uint32ToIP network) @ ''/'' @ FormatInt (int maskLen)) \<and>
         ipToUint32 (uint32ToIP network) = network \<and>
         parseIPv4 (IP_String (uint32ToIP network)) = Some (uint32ToIP network) \<and>
         CHR ''/'' \<notin> set (IP_String (uint32ToIP network)) \<and>
         ParseInt (FormatInt (int maskLen)) = Some (int maskLen) \<and>
         maskLen = leading_zeros (ipToUint32 start XOR ipToUint32 end) \<and>
         drop_bit (32 - maskLen) network = drop_bit (32 - maskLen) (ipToUint32 start) \<and>
         take_bit (32 - maskLen) network = 0 \<and>
         (\<forall>a. ipToUint32 start \<le> a \<and> a \<le> ipToUint32 end \<longrightarrow> in_cidr a (network, maskLen)) \<and>
         (\<forall>len' net'. maskLen < len' \<and> len' \<le> 32 \<longrightarrow>
            \<not> (in_cidr (ipToUint32 start) (net', len') \<and> in_cidr (ipToUint32 end) (net', len'))))) \<and>
   (\<forall>b0 b1 b2 b3.
      unat (ipToUint32 (b0, b1, b2, b3)) =
        unat b0 * 2 ^ 24 + unat b1 * 2 ^ 16 + unat b2 * 2 ^ 8 + unat b3)"
proof (intro conjI allI impI)
  assume "ParseIP_To4 startIP = None \<or> ParseIP_To4 endIP = None"
  then show "CalculateCIDR ParseIP_To4 startIP endIP = Inl InvalidAddress"
    by (auto simp: CalculateCIDR_def split: option.splits)
next
  fix start "end"
  assume "ParseIP_To4 startIP = Some start \<and> ParseIP_To4 endIP = Some end \<and>
          ipToUint32 end < ipToUint32 start"
  then show "CalculateCIDR ParseIP_To4 startIP endIP = Inl RangeOrder"
    by (simp add: CalculateCIDR_def)
next
  fix start "end"
  assume a: "ParseIP_To4 startIP = Some start \<and> ParseIP_To4 endIP = Some end \<and>
             ipToUint32 start \<le> ipToUint32 end"
  let ?s = "ipToUint32 start" and ?e = "ipToUint32 end"
  let ?b = "CalculateCIDR_block ?s ?e"
  have b: "?b = (fst ?b, snd ?b)" by simp
  from a have nl: "\<not> ?e < ?s" by (simp add: leD)
  have 1: "CalculateCIDR ParseIP_To4 startIP endIP =
             Inr (IP_String (uint32ToIP (fst ?b)) @ ''/'' @ FormatInt (int (snd ?b)))"
    using a nl by (simp add: CalculateCIDR_def Let_def split_def)
  have 2: "snd ?b = leading_zeros (?s XOR ?e)"
    by (simp only: block_snd leading_zeros_Len32)
  have "snd ?b \<le> 32" by (simp add: block_snd)
  then have "snd ?b < 2 ^ 63" by simp
  then have "ParseInt (showNat (snd ?b)) = Some (int (snd ?b))" by (rule ParseInt_showNat)
  then have 3: "ParseInt (FormatInt (int (snd ?b))) = Some (int (snd ?b))"
    by (simp add: FormatInt_def)
  have 5: "\<forall>a. ?s \<le> a \<and> a \<le> ?e \<longrightarrow> in_cidr a (fst ?b, snd ?b)"
    using block_covers [of ?s _ ?e] by (simp only: b [symmetric]) blast
  have 6: "\<forall>len' net'. snd ?b < len' \<and> len' \<le> 32 \<longrightarrow>
             \<not> (in_cidr ?s (net', len') \<and> in_cidr ?e (net', len'))"
    using block_minimal [of ?s ?e] by blast
  show "\<exists>network maskLen.
         CalculateCIDR ParseIP_To4 startIP endIP =
           Inr (IP_String (uint32ToIP network) @ ''/'' @ FormatInt (int maskLen)) \<and>
         ipToUint32 (uint32ToIP network) = network \<and>
         parseIPv4 (IP_String (uint32ToIP network)) = Some (uint32ToIP network) \<and>
         CHR ''/'' \<notin> set (IP_String (uint32ToIP network)) \<and>
         ParseInt (FormatInt (int maskLen)) = Some (int maskLen) \<and>
         maskLen = leading_zeros (?s XOR ?e) \<and>
         drop_bit (32 - maskLen) network = drop_bit (32 - maskLen) ?s \<and>
         take_bit (32 - maskLen) network = 0 \<and>
         (\<forall>a. ?s \<le> a \<and> a \<le> ?e \<longrightarrow> in_cidr a (network, maskLen)) \<and>
         (\<forall>len' net'. maskLen < len' \<and> len' \<le> 32 \<longrightarrow>
            \<not> (in_cidr ?s (net', len') \<and> in_cidr ?e (net', len')))"
    apply (rule exI [of _ "fst ?b"])
    apply (rule exI [of _ "snd ?b"])
    apply (intro conjI)
             apply (rule 1)
            apply (rule ipToUint32_uint32ToIP)
           apply (rule parseIPv4_IP_String)
          apply (rule IP_String_no_slash)
         apply (rule 3)
        apply (rule 2)
       apply (rule block_prefix)
      apply (rule block_aligned)
     apply (rule 5)
    apply (rule 6)
    done
next
  fix b0 b1 b2 b3 :: "8 word"
  show "unat (ipToUint32 (b0, b1, b2, b3)) =
          unat b0 * 2 ^ 24 + unat b1 * 2 ^ 16 + unat b2 * 2 ^ 8 + unat b3"
    by (rule unat_ipToUint32)
qed

lemma example_parse:
  "parseIPv4 ''172.5.0.1'' = Some (172, 5, 0, 1)"
  "parseIPv4 ''172.5.7.254'' = Some (172, 5, 7, 254)"
  "parseIPv4 ''172.5.7.256'' = None"
  by (simp_all add: eval_parse)

lemma example_block: "CalculateCIDR_block 2886008833 2886010878 = (2886008832, 21)"
proof -
  have x: "(2886008833 :: 32 word) XOR 2886010878 = 2047"
    by simp
  have l: "Len32 2047 = 11"
    by (simp add: Len32_def upt_conv_Cons)
  show ?thesis
    by (simp add: CalculateCIDR_block_def x l push_bit_eq_mult)
qed

lemma example_cidr: "CalculateCIDR parseIPv4 ''172.5.0.1'' ''172.5.7.254'' = Inr ''172.5.0.0/21''"
proof -
  have i: "ipToUint32 (172, 5, 0, 1) = 2886008833" "ipToUint32 (172, 5, 7, 254) = 2886010878"
    by (simp_all add: ipToUint32_def)
  show ?thesis
    by (simp add: CalculateCIDR_def example_parse i example_block uint32ToIP_def IP_String_def
          eval_format)
qed

text \<open>The theorem at 172.5.0.1 to 172.5.7.254, at an unparsable end and at a reversed
  pair.\<close>

theorem CalculateCIDR_smallest_covering_block_witness:
  "parseIPv4 ''172.5.0.1'' = Some (172, 5, 0, 1) \<and>
   parseIPv4 ''172.5.7.254'' = Some (172, 5, 7, 254) \<and>
   ipToUint32 (172, 5, 0, 1) \<le> ipToUint32 (172, 5, 7, 254) \<and>
   CalculateCIDR parseIPv4 ''172.5.0.1'' ''172.5.7.254'' = Inr ''172.5.0.0/21'' \<and>
   (\<exists>network maskLen.
      Inr ''172.5.0.0/21'' = Inr (IP_String (uint32ToIP network) @ ''/'' @ FormatInt (int maskLen)) \<and>
      ipToUint32 (uint32ToIP network) = network \<and>
      parseIPv4 (IP_String (uint32ToIP network)) = Some (uint32ToIP network) \<and>
      (\<forall>a. ipToUint32 (172, 5, 0, 1) \<le> a \<and> a \<le> ipToUint32 (172, 5, 7, 254) \<longrightarrow>
           in_cidr a (network, maskLen))) \<and>
   parseIPv4 ''172.5.7.256'' = None \<and>
   CalculateCIDR parseIPv4 ''172.5.0.1'' ''172.5.7.256'' = Inl InvalidAddress \<and>
   ipToUint32 (172, 5, 0, 1) < ipToUint32 (172, 5, 7, 254) \<and>
   CalculateCIDR parseIPv4 ''172.5.7.254'' ''172.5.0.1'' = Inl RangeOrder \<and>
   unat (ipToUint32 (172, 5, 0, 1)) = 2886008833"
proof -
  have le: "ipToUint32 (172, 5, 0, 1) \<le> ipToUint32 (172, 5, 7, 254)"
    and lt: "ipToUint32 (172, 5, 0, 1) < ipToUint32 (172, 5, 7, 254)"
    by (simp_all add: ipToUint32_def)
  note t1 = CalculateCIDR_smallest_covering_block [of parseIPv4 "''172.5.0.1''" "''172.5.7.254''"]
  note t2 = CalculateCIDR_smallest_covering_block [of parseIPv4 "''172.5.0.1''" "''172.5.7.256''"]
  note t3 = CalculateCIDR_smallest_covering_block [of parseIPv4 "''172.5.7.254''" "''172.5.0.1''"]
  from t1 example_parse le
  have "\<exists>network maskLen.
      CalculateCIDR parseIPv4 ''172.5.0.1'' ''172.5.7.254'' =
        Inr (IP_String (uint32ToIP network) @ ''/'' @ FormatInt (int maskLen)) \<and>
      ipToUint32 (uint32ToIP network) = network \<and>
      parseIPv4 (IP_String (uint32ToIP network)) = Some (uint32ToIP network) \<and>
      (\<forall>a. ipToUint32 (172, 5, 0, 1) \<le> a \<and> a \<le> ipToUint32 (172, 5, 7, 254) \<longrightarrow>
           in_cidr a (network, maskLen))"
    by blast
  moreover from t2 example_parse
  have "CalculateCIDR parseIPv4 ''172.5.0.1'' ''172.5.7.256'' = Inl InvalidAddress" by blast
  moreover from t3 example_parse lt
  have "CalculateCIDR parseIPv4 ''172.5.7.254'' ''172.5.0.1'' = Inl RangeOrder" by blast
  moreover from t1 have "unat (ipToUint32 (172, 5, 0, 1)) =
      unat (172 :: 8 word) * 2 ^ 24 + unat (5 :: 8 word) * 2 ^ 16 + unat (0 :: 8 word) * 2 ^ 8 +
      unat (1 :: 8 word)" by blast
  then have "unat (ipToUint32 (172, 5, 0, 1)) = 2886008833" by simp
  ultimately show ?thesis
    using example_parse le lt by (simp only: example_cidr) blast
qed

text \<open>What \<open>ExpandRange\<close> returns when the end is not 255.255.255.255, and for a
  reversed pair.\<close>

lemma ExpandRange_returns_range:
  assumes "ParseIP_To4 startIP = Some start" "ParseIP_To4 endIP = Some end"
    and "ipToUint32 start \<le> ipToUint32 end" "ipToUint32 end \<noteq> - 1"
  shows "ExpandRange ParseIP_To4 startIP endIP =
           Some (Inr (map (\<lambda>n. IP_String (uint32ToIP (word_of_nat n)))
                        [unat (ipToUint32 start)..<Suc (unat (ipToUint32 end))]))"
proof -
  have "unat (ipToUint32 start) \<le> Suc (unat (ipToUint32 end))"
    using assms(3) by (simp add: word_le_nat_alt)
  from loop_returns [OF assms(4) this, of "[]"] assms show ?thesis
    by (simp add: ExpandRange_def Let_def)
qed

lemma ExpandRange_reversed:
  assumes "ParseIP_To4 startIP = Some start" "ParseIP_To4 endIP = Some end"
    and "ipToUint32 end < ipToUint32 start"
  shows "ExpandRange ParseIP_To4 startIP endIP = Some (Inl RangeOrder)"
  using assms by (simp add: ExpandRange_def Let_def)

lemma ExpandRange_example:
  "ExpandRange parseIPv4 ''10.0.0.1'' ''10.0.0.3'' = Some (Inr [''10.0.0.1'', ''10.0.0.2'', ''10.0.0.3''])"
proof -
  have p: "parseIPv4 ''10.0.0.1'' = Some (10, 0, 0, 1)" "parseIPv4 ''10.0.0.3'' = Some (10, 0, 0, 3)"
    by (simp_all add: eval_parse)
  have i: "ipToUint32 (10, 0, 0, 1) = 167772161" "ipToUint32 (10, 0, 0, 3) = 167772163"
    by (simp_all add: ipToUint32_def)
  have "ExpandRange parseIPv4 ''10.0.0.1'' ''10.0.0.3'' =
      Some (Inr (map (\<lambda>n. IP_String (uint32ToIP (word_of_nat n)))
                        [unat (167772161 :: 32 word)..<Suc (unat (167772163 :: 32 word))]))"
    using ExpandRange_returns_range [of parseIPv4 "''10.0.0.1''" "(10, 0, 0, 1)" "''10.0.0.3''" "(10, 0, 0, 3)"]
    by (simp add: p i)
  also have "[unat (167772161 :: 32 word)..<Suc (unat (167772163 :: 32 word))] = [167772161, 167772162, 167772163]"
    by (simp add: upt_conv_Cons)
  finally show ?thesis
    by (simp add: uint32ToIP_def IP_String_def eval_format)
qed

text \<open>
  C6 at the end address 255.255.255.255: the loop condition \<open>i <= endInt\<close> holds for
  every \<open>uint32\<close> and \<open>i++\<close> wraps around, so \<open>ExpandRange\<close> does not return.
\<close>

theorem ExpandRange_broadcast_end_never_returns:
  "parseIPv4 ''255.255.255.255'' = Some (255, 255, 255, 255) \<and>
   ExpandRange parseIPv4 ''255.255.255.255'' ''255.255.255.255'' = None"
proof -
  have p: "parseIPv4 ''255.255.255.255'' = Some (255, 255, 255, 255)"
    by (simp add: eval_parse)
  have i: "ipToUint32 (255, 255, 255, 255) = - 1"
    by (simp add: ipToUint32_def)
  show ?thesis by (simp add: p ExpandRange_def i loop_max_None)
qed

section \<open>Properties of the liveness prober\<close>

lemma length_Split: "length (Split s c) = Suc (count_list s c)"
  by (induction s) (auto simp: Split_not_Nil split: list.splits)

lemma Split_two:
  "length (Split s c) = 2 \<Longrightarrow>
   Split s c = [takeWhile (\<lambda>x. x \<noteq> c) s, tl (dropWhile (\<lambda>x. x \<noteq> c) s)]"
proof -
  let ?r = "tl (dropWhile (\<lambda>x. x \<noteq> c) s)"
  assume l: "length (Split s c) = 2"
  then have "count_list s c = 1" by (simp add: length_Split)
  then have mem: "c \<in> set s" by (metis count_list_0_iff zero_neq_one)
  then have eq: "Split s c = takeWhile (\<lambda>x. x \<noteq> c) s # Split ?r c"
    by (subst Split_eq) simp
  with l have "length (Split ?r c) = 1" by simp
  then have "count_list ?r c = 0" by (simp add: length_Split)
  then have "c \<notin> set ?r" by (simp add: count_list_0_iff)
  then have "Split ?r c = [?r]" by (rule Split_no_sep)
  with eq show ?thesis by simp
qed

lemma Contains_Nil [simp]: "Contains s []"
  by (cases s) simp_all

lemma Contains_single: "Contains s [c] \<longleftrightarrow> c \<in> set s"
  by (induction s) auto

lemma ExecuteFping_loop_eq:
  "ExecuteFping_loop lines acc = acc @ map fping_host (filter fping_alive lines)"
proof (induction lines arbitrary: acc)
  case Nil
  then show ?case by simp
next
  case (Cons line rest)
  let ?parts = "Split line CHR '':''"
  show ?case
  proof (cases "length ?parts = 2")
    case True
    then have p: "?parts = [takeWhile (\<lambda>x. x \<noteq> CHR '':'') line, tl (dropWhile (\<lambda>x. x \<noteq> CHR '':'') line)]"
      by (rule Split_two)
    from True have c: "count_list line CHR '':'' = 1" by (simp add: length_Split)
    show ?thesis
      using Cons [of "acc @ [fping_host line]"] Cons [of acc] True
      by (simp add: Let_def p c Contains_single fping_alive_def fping_host_def del: Split.simps)
  next
    case False
    then have "count_list line CHR '':'' \<noteq> 1" by (simp add: length_Split)
    with False Cons [of acc] show ?thesis by (simp add: Let_def fping_alive_def del: Split.simps)
  qed
qed

text \<open>
  C7, as the code has it. \<open>ExecuteFping\<close> returns the hosts of exactly those output
  lines that have one colon and no \<open>-\<close> after it, in output order, and it never returns
  an error: the outcome of invoking the sweep tool is discarded.
\<close>

theorem ExecuteFping_alive_hosts:
  "ExecuteFping run_fping cidr retries timeout =
     (map fping_host
        (filter fping_alive
           (scanned_lines
              (run_fping [''-C'', FormatInt retries, ''-t'', FormatInt timeout, ''-r'', ''0'',
                          ''-A'', ''-q'', ''-g'', cidr]))),
      None)"
  by (simp add: ExecuteFping_def Let_def ExecuteFping_loop_eq)

text \<open>When the sweep tool cannot be started, the caller gets an empty list and no
  error.\<close>

theorem ExecuteFping_invocation_failure_counterexample:
  "ExecuteFping (\<lambda>args. \<lparr>scanned_lines = [], run_error = Some ''executable file not found''\<rparr>)
     ''10.0.0.0/24'' 3 100 = ([], None)"
  by (simp add: ExecuteFping_def)

section \<open>Properties of uptime normalisation\<close>

lemma dropWhile_hd: "xs \<noteq> [] \<Longrightarrow> \<not> P (hd xs) \<Longrightarrow> dropWhile P xs = xs"
  by (cases xs) simp_all

lemma Trim_wrap:
  assumes "body \<noteq> []" "hd body \<notin> set cutset" "last body \<notin> set cutset"
    and "set pre \<subseteq> set cutset" "set post \<subseteq> set cutset"
  shows "Trim (pre @ body @ post) cutset = body"
proof -
  let ?P = "\<lambda>c. c \<in> set cutset"
  have 1: "dropWhile ?P (pre @ body @ post) = body @ post"
  proof -
    have "\<And>x. x \<in> set pre \<Longrightarrow> ?P x" using assms(4) by auto
    then have "dropWhile ?P (pre @ body @ post) = dropWhile ?P (body @ post)"
      by (rule dropWhile_append2)
    also have "\<dots> = body @ post"
      using assms(1,2) by (intro dropWhile_hd) simp_all
    finally show ?thesis .
  qed
  have "rev (body @ post) = rev post @ rev body" by simp
  moreover have "dropWhile ?P (rev post @ rev body) = rev body"
  proof -
    have "\<And>x. x \<in> set (rev post) \<Longrightarrow> ?P x" using assms(5) by auto
    then have "dropWhile ?P (rev post @ rev body) = dropWhile ?P (rev body)"
      by (rule dropWhile_append2)
    also have "\<dots> = rev body"
      using assms(1,3) by (intro dropWhile_hd) (simp_all add: hd_rev)
    finally show ?thesis .
  qed
  ultimately show ?thesis by (simp add: Trim_def 1)
qed

lemma Split_pair:
  assumes "c \<notin> set a" "c \<notin> set b"
  shows "Split (a @ c # b) c = [a, b]"
  using assms(1)
proof (induction a)
  case Nil
  then show ?case using assms(2) by (simp add: Split_no_sep)
next
  case (Cons x a)
  then show ?case by auto
qed

lemma sint_word_of_nat_64:
  assumes "m < 2 ^ 63"
  shows "sint (word_of_nat m :: 64 word) = int m"
proof -
  have "int m < 2 ^ 63" using assms by (simp add: of_nat_less_numeral_power_cancel_iff)
  then have "signed_take_bit 63 (int m) = int m"
    by (intro signed_take_bit_int_eq_self) simp_all
  then show ?thesis by (simp add: signed_of_nat)
qed

lemma parseUptime_eval:
  assumes "s \<noteq> []" "Trim s ''()'' = t" "Split t CHR '' '' = [a, b]" "ParseInt a = Some v"
  shows "parseUptimeToSeconds s =
     (if b = ''days'' then word_of_int v * 24 * 60 * 60
      else if b = ''hours'' then word_of_int v * 60 * 60
      else if b = ''minutes'' then word_of_int v * 60
      else if b = ''seconds'' then word_of_int v
      else 0)"
  using assms by (simp add: parseUptimeToSeconds_def Let_def)

lemma word_products:
  "(word_of_int (int n) :: 64 word) * 24 * 60 * 60 = word_of_nat (n * 86400)"
  "(word_of_int (int n) :: 64 word) * 60 * 60 = word_of_nat (n * 3600)"
  "(word_of_int (int n) :: 64 word) * 60 = word_of_nat (n * 60)"
  by simp_all

lemma unit_product:
  assumes "unit \<in> set uptime_units"
  shows "(if unit = ''days'' then (word_of_int (int n) :: 64 word) * 24 * 60 * 60
          else if unit = ''hours'' then word_of_int (int n) * 60 * 60
          else if unit = ''minutes'' then word_of_int (int n) * 60
          else if unit = ''seconds'' then word_of_int (int n)
          else 0) = word_of_nat (n * uptime_factor unit)"
proof -
  from assms consider "unit = ''days''" | "unit = ''hours''" | "unit = ''minutes''"
    | "unit = ''seconds''"
    by (auto simp: uptime_units_def)
  then show ?thesis
  proof cases
    case 1
    then show ?thesis by (simp add: uptime_factor_def)
  next
    case 2
    then show ?thesis by (simp add: uptime_factor_def)
  next
    case 3
    then show ?thesis by (simp add: uptime_factor_def)
  next
    case 4
    then show ?thesis by (simp add: uptime_factor_def)
  qed
qed

lemma parseUptime_form:
  assumes u: "unit \<in> set uptime_units" and b: "n * uptime_factor unit < 2 ^ 63"
  shows "sint (parseUptimeToSeconds (''('' @ showNat n @ '' '' @ unit @ '')'')) =
           int (n * uptime_factor unit)"
proof -
  let ?num = "showNat n"
  let ?body = "?num @ CHR '' '' # unit"
  from showNat_props [of n] have ne: "?num \<noteq> []" and d: "list_all isDigit ?num" by simp_all
  from u have f1: "1 \<le> uptime_factor unit" by (auto simp: uptime_units_def uptime_factor_def)
  have "n \<le> n * uptime_factor unit" using f1 by (cases "uptime_factor unit") simp_all
  from this b have n: "n < 2 ^ 63" by (rule le_less_trans)
  have dig: "\<And>c. c \<in> set ?num \<Longrightarrow> isDigit c" using d by (simp add: list_all_iff)
  have nosp: "CHR '' '' \<notin> set ?num" using dig isDigit_not_special by blast
  have usp: "CHR '' '' \<notin> set unit" using u by (auto simp: uptime_units_def)
  from ne d have "isDigit (hd ?num)" by (cases ?num) simp_all
  then have hd: "hd ?body \<notin> set ''()''" using ne isDigit_not_special [of "hd ?num"] by simp
  have lst: "last ?body \<notin> set ''()''" using u by (auto simp: uptime_units_def)
  have "Trim (''('' @ ?body @ '')'') ''()'' = ?body"
    by (rule Trim_wrap) (use hd lst in simp_all)
  then have t: "Trim (''('' @ ?num @ '' '' @ unit @ '')'') ''()'' = ?body" by simp
  have sp: "Split ?body CHR '' '' = [?num, unit]" using nosp usp by (rule Split_pair)
  have p: "ParseInt ?num = Some (int n)" using n by (rule ParseInt_showNat)
  have ne0: "''('' @ ?num @ '' '' @ unit @ '')'' \<noteq> []" by simp
  have w: "parseUptimeToSeconds (''('' @ ?num @ '' '' @ unit @ '')'') =
             (word_of_nat (n * uptime_factor unit) :: 64 word)"
    by (simp only: parseUptime_eval [OF ne0 t sp p] unit_product [OF u])
  show ?thesis unfolding w using b by (rule sint_word_of_nat_64)
qed


lemma Trim_decomp:
  "\<exists>pre post. s = pre @ Trim s cutset @ post \<and> set pre \<subseteq> set cutset \<and> set post \<subseteq> set cutset"
proof -
  let ?P = "\<lambda>c. c \<in> set cutset"
  let ?d = "dropWhile ?P s"
  let ?pre = "takeWhile ?P s"
  let ?post = "rev (takeWhile ?P (rev ?d))"
  have "rev (takeWhile ?P (rev ?d) @ dropWhile ?P (rev ?d)) = ?d"
    by (simp only: takeWhile_dropWhile_id rev_rev_ident)
  then have "rev (dropWhile ?P (rev ?d)) @ rev (takeWhile ?P (rev ?d)) = ?d"
    by (simp only: rev_append)
  then have d: "?d = Trim s cutset @ ?post" by (simp only: Trim_def)
  have "s = ?pre @ ?d" by simp
  with d have "s = ?pre @ Trim s cutset @ ?post" by simp
  moreover have "set ?pre \<subseteq> set cutset" by (auto dest: set_takeWhileD)
  moreover have "set ?post \<subseteq> set cutset" by (auto dest: set_takeWhileD)
  ultimately show ?thesis by blast
qed

lemma Split_two_decomp:
  assumes "length (Split t c) = 2"
  shows "t = (Split t c ! 0) @ c # (Split t c ! 1)"
proof -
  let ?a = "takeWhile (\<lambda>x. x \<noteq> c) t" and ?d = "dropWhile (\<lambda>x. x \<noteq> c) t"
  from assms have sp: "Split t c = [?a, tl ?d]" by (rule Split_two)
  from assms have "count_list t c = 1" by (simp add: length_Split)
  then have "c \<in> set t" by (metis count_list_0_iff zero_neq_one)
  then have "?d \<noteq> []" by auto
  moreover from this have "hd ?d = c" using hd_dropWhile [of "\<lambda>x. x \<noteq> c" t] by simp
  ultimately have "?d = c # tl ?d" by (cases ?d) simp_all
  moreover have "t = ?a @ ?d" by simp
  ultimately have "t = ?a @ c # tl ?d" by simp
  then show ?thesis by (simp add: sp)
qed

lemma parseUptime_nonzero:
  assumes "parseUptimeToSeconds s \<noteq> 0"
  shows "\<exists>pre num unit post.
           s = pre @ num @ '' '' @ unit @ post \<and> set pre \<subseteq> set ''()'' \<and> set post \<subseteq> set ''()'' \<and>
           ParseInt num \<noteq> None \<and> unit \<in> set uptime_units"
proof -
  let ?t = "Trim s ''()''"
  let ?parts = "Split ?t CHR '' ''"
  have l: "length ?parts = 2"
  proof (rule ccontr)
    assume "length ?parts \<noteq> 2"
    then have "parseUptimeToSeconds s = 0" by (simp add: parseUptimeToSeconds_def Let_def)
    with assms show False by simp
  qed
  have p: "ParseInt (?parts ! 0) \<noteq> None"
  proof
    assume "ParseInt (?parts ! 0) = None"
    then have "parseUptimeToSeconds s = 0" by (simp add: parseUptimeToSeconds_def Let_def)
    with assms show False by simp
  qed
  have u: "?parts ! 1 \<in> set uptime_units"
  proof (rule ccontr)
    assume "?parts ! 1 \<notin> set uptime_units"
    then have "?parts ! 1 \<noteq> ''days''" "?parts ! 1 \<noteq> ''hours''" "?parts ! 1 \<noteq> ''minutes''"
      "?parts ! 1 \<noteq> ''seconds''" by (simp_all add: uptime_units_def)
    then have "parseUptimeToSeconds s = 0"
      by (simp add: parseUptimeToSeconds_def Let_def split: option.splits)
    with assms show False by simp
  qed
  from Trim_decomp [of s "''()''"] obtain pre post where
    s: "s = pre @ ?t @ post" and pre: "set pre \<subseteq> set ''()''" and post: "set post \<subseteq> set ''()''"
    by blast
  from l have "?t = (?parts ! 0) @ CHR '' '' # (?parts ! 1)" by (rule Split_two_decomp)
  then have "pre @ ?t @ post = pre @ ((?parts ! 0) @ CHR '' '' # (?parts ! 1)) @ post"
    by (rule arg_cong)
  with s have "s = pre @ ((?parts ! 0) @ CHR '' '' # (?parts ! 1)) @ post"
    by (rule trans)
  then have "s = pre @ (?parts ! 0) @ '' '' @ (?parts ! 1) @ post"
    by (simp only: append_assoc append_Cons append_Nil)
  with pre post p u show ?thesis by blast
qed

lemma ParseInt_chars:
  assumes "ParseInt num = Some v"
  shows "num \<noteq> []" "hd num \<notin> set ''()''" "CHR '' '' \<notin> set num"
proof -
  from assms show ne: "num \<noteq> []" by (auto simp: ParseInt_def)
  let ?r = "if hd num = CHR ''+'' \<or> hd num = CHR ''-'' then tl num else num"
  from assms ne have "ParseUint10 ?r \<noteq> None"
    by (auto simp: ParseInt_def Let_def split: option.splits if_splits)
  then have d: "?r \<noteq> []" "list_all isDigit ?r"
    by (auto simp: ParseUint10_def split: if_splits)
  then have dig: "\<And>c. c \<in> set ?r \<Longrightarrow> isDigit c" by (simp add: list_all_iff)
  show "hd num \<notin> set ''()''"
  proof (cases "hd num = CHR ''+'' \<or> hd num = CHR ''-''")
    case True
    then show ?thesis by auto
  next
    case False
    with ne dig [of "hd num"] have "isDigit (hd num)" by simp
    then show ?thesis using isDigit_not_special [of "hd num"] by simp
  qed
  show "CHR '' '' \<notin> set num"
  proof
    assume m: "CHR '' '' \<in> set num"
    from ne have "num = hd num # tl num" by simp
    then have "set num = insert (hd num) (set (tl num))" by (metis list.simps(15))
    with m have "CHR '' '' = hd num \<or> CHR '' '' \<in> set (tl num)" by auto
    then have "CHR '' '' \<in> set ?r"
    proof
      assume h: "CHR '' '' = hd num"
      then have "?r = num" by auto
      with m show ?thesis by simp
    next
      assume t: "CHR '' '' \<in> set (tl num)"
      then have "CHR '' '' \<in> set num" by (rule list.set_sel(2) [OF ne])
      with t show ?thesis by simp
    qed
    then have "isDigit CHR '' ''" by (rule dig)
    then show False by (simp add: isDigit_def)
  qed
qed

lemma unit_product_int:
  assumes "unit \<in> set uptime_units"
  shows "(if unit = ''days'' then (word_of_int v :: 64 word) * 24 * 60 * 60
          else if unit = ''hours'' then word_of_int v * 60 * 60
          else if unit = ''minutes'' then word_of_int v * 60
          else if unit = ''seconds'' then word_of_int v
          else 0) = word_of_int (v * int (uptime_factor unit))"
proof -
  from assms consider "unit = ''days''" | "unit = ''hours''" | "unit = ''minutes''"
    | "unit = ''seconds''"
    by (auto simp: uptime_units_def)
  then show ?thesis
  proof cases
    case 1
    then show ?thesis by (simp add: uptime_factor_def)
  next
    case 2
    then show ?thesis by (simp add: uptime_factor_def)
  next
    case 3
    then show ?thesis by (simp add: uptime_factor_def)
  next
    case 4
    then show ?thesis by (simp add: uptime_factor_def)
  qed
qed

lemma parseUptime_shape:
  assumes pre: "set pre \<subseteq> set ''()''" and post: "set post \<subseteq> set ''()''"
    and p: "ParseInt num = Some v" and u: "unit \<in> set uptime_units"
  shows "parseUptimeToSeconds (pre @ num @ '' '' @ unit @ post) =
           word_of_int (v * int (uptime_factor unit))"
proof -
  let ?body = "num @ CHR '' '' # unit"
  note c = ParseInt_chars [OF p]
  have usp: "CHR '' '' \<notin> set unit" using u by (auto simp: uptime_units_def)
  have hd: "hd ?body \<notin> set ''()''" using c(1,2) by simp
  have lst: "last ?body \<notin> set ''()''" using u by (auto simp: uptime_units_def)
  have "Trim (pre @ ?body @ post) ''()'' = ?body"
    by (rule Trim_wrap) (use hd lst pre post in simp_all)
  then have t: "Trim (pre @ num @ '' '' @ unit @ post) ''()'' = ?body" by simp
  have sp: "Split ?body CHR '' '' = [num, unit]" using c(3) usp by (rule Split_pair)
  have ne0: "pre @ num @ '' '' @ unit @ post \<noteq> []" by simp
  show ?thesis
    by (simp only: parseUptime_eval [OF ne0 t sp p] unit_product_int [OF u])
qed

text \<open>
  C8, as the code has it. Call a text well-formed when it consists of any number (also
  none) of the characters \<open>(\<close> and \<open>)\<close>, a number \<open>strconv.ParseInt\<close> accepts (decimal
  digits after an optional sign, within the \<open>int64\<close> range), one space, one of the units
  days, hours, minutes and seconds, and again any number of the characters \<open>(\<close> and
  \<open>)\<close>. Every well-formed text is mapped to the number times the unit's seconds,
  reduced to an \<open>int64\<close> by wrap-around; in particular, for every natural number \<open>n\<close>
  such that \<open>n\<close> times the unit's seconds is below \<open>2^63\<close>, the text \<open>(n unit)\<close> is mapped
  to exactly that product. The empty text is mapped to 0, and every text that is not
  mapped to 0 is well-formed. The function is total: it has no error result.
\<close>

theorem parseUptimeToSeconds_normalises:
  "(\<forall>n unit. unit \<in> set uptime_units \<and> n * uptime_factor unit < 2 ^ 63 \<longrightarrow>
      sint (parseUptimeToSeconds (''('' @ showNat n @ '' '' @ unit @ '')'')) =
        int (n * uptime_factor unit)) \<and>
   parseUptimeToSeconds [] = 0 \<and>
   (\<forall>s. parseUptimeToSeconds s \<noteq> 0 \<longrightarrow>
      (\<exists>pre num unit post.
         s = pre @ num @ '' '' @ unit @ post \<and> set pre \<subseteq> set ''()'' \<and> set post \<subseteq> set ''()'' \<and>
         ParseInt num \<noteq> None \<and> unit \<in> set uptime_units)) \<and>
   (\<forall>pre num unit post v.
      set pre \<subseteq> set ''()'' \<and> set post \<subseteq> set ''()'' \<and> ParseInt num = Some v \<and>
      unit \<in> set uptime_units \<longrightarrow>
      parseUptimeToSeconds (pre @ num @ '' '' @ unit @ post) =
        word_of_int (v * int (uptime_factor unit)))"
proof (intro conjI allI impI)
  fix n unit
  assume "unit \<in> set uptime_units \<and> n * uptime_factor unit < 2 ^ 63"
  then show "sint (parseUptimeToSeconds (''('' @ showNat n @ '' '' @ unit @ '')'')) =
               int (n * uptime_factor unit)"
    using parseUptime_form by blast
next
  show "parseUptimeToSeconds [] = 0" by (simp add: parseUptimeToSeconds_def)
next
  fix s
  assume "parseUptimeToSeconds s \<noteq> 0"
  then show "\<exists>pre num unit post.
         s = pre @ num @ '' '' @ unit @ post \<and> set pre \<subseteq> set ''()'' \<and> set post \<subseteq> set ''()'' \<and>
         ParseInt num \<noteq> None \<and> unit \<in> set uptime_units"
    by (rule parseUptime_nonzero)
next
  fix pre num unit post v
  assume a: "set pre \<subseteq> set ''()'' \<and> set post \<subseteq> set ''()'' \<and> ParseInt num = Some v \<and>
             unit \<in> set uptime_units"
  then have "set pre \<subseteq> set ''()''" "set post \<subseteq> set ''()''" "ParseInt num = Some v"
    "unit \<in> set uptime_units" by blast+
  then show "parseUptimeToSeconds (pre @ num @ '' '' @ unit @ post) =
               word_of_int (v * int (uptime_factor unit))"
    by (rule parseUptime_shape)
qed

text \<open>The theorem at \<open>(3 days)\<close>, \<open>(45 minutes)\<close>, the empty text and \<open>((-7 hours)\<close>.\<close>

theorem parseUptimeToSeconds_normalises_witness:
  "sint (parseUptimeToSeconds ''(3 days)'') = 259200 \<and>
   sint (parseUptimeToSeconds ''(45 minutes)'') = 2700 \<and>
   parseUptimeToSeconds [] = 0 \<and>
   parseUptimeToSeconds ''(45 minutes)'' \<noteq> 0 \<and>
   (\<exists>pre num unit post.
      ''(45 minutes)'' = pre @ num @ '' '' @ unit @ post \<and> set pre \<subseteq> set ''()'' \<and>
      set post \<subseteq> set ''()'' \<and> ParseInt num \<noteq> None \<and> unit \<in> set uptime_units) \<and>
   set ''(('' \<subseteq> set ''()'' \<and> set '')'' \<subseteq> set ''()'' \<and> ParseInt ''-7'' = Some (- 7) \<and>
   ''hours'' \<in> set uptime_units \<and>
   sint (parseUptimeToSeconds ''((-7 hours)'') = - 25200"
proof -
  note t = parseUptimeToSeconds_normalises
  have s3: "showNat 3 = ''3''" and s45: "showNat 45 = ''45''"
    by (simp_all add: showNat.simps digit_char_def)
  have "''days'' \<in> set uptime_units \<and> 3 * uptime_factor ''days'' < 2 ^ 63"
    by (simp add: uptime_units_def uptime_factor_def)
  with t have "sint (parseUptimeToSeconds (''('' @ showNat 3 @ '' '' @ ''days'' @ '')'')) =
                 int (3 * uptime_factor ''days'')" by blast
  then have a: "sint (parseUptimeToSeconds ''(3 days)'') = 259200"
    by (simp add: s3 uptime_factor_def)
  have "''minutes'' \<in> set uptime_units \<and> 45 * uptime_factor ''minutes'' < 2 ^ 63"
    by (simp add: uptime_units_def uptime_factor_def)
  with t have "sint (parseUptimeToSeconds (''('' @ showNat 45 @ '' '' @ ''minutes'' @ '')'')) =
                 int (45 * uptime_factor ''minutes'')" by blast
  then have b: "sint (parseUptimeToSeconds ''(45 minutes)'') = 2700"
    by (simp add: s45 uptime_factor_def)
  then have c: "parseUptimeToSeconds ''(45 minutes)'' \<noteq> 0" by auto
  with t have d: "\<exists>pre num unit post.
      ''(45 minutes)'' = pre @ num @ '' '' @ unit @ post \<and> set pre \<subseteq> set ''()'' \<and>
      set post \<subseteq> set ''()'' \<and> ParseInt num \<noteq> None \<and> unit \<in> set uptime_units" by blast
  have h: "set ''(('' \<subseteq> set ''()''" "set '')'' \<subseteq> set ''()''" "ParseInt ''-7'' = Some (- 7)"
    "''hours'' \<in> set uptime_units"
    by (simp_all add: ParseInt_def ParseUint10_def isDigit_def digits_value_def digit_value_def
          uptime_units_def)
  with t have "parseUptimeToSeconds (''(('' @ ''-7'' @ '' '' @ ''hours'' @ '')'') =
                 word_of_int (- 7 * int (uptime_factor ''hours''))" by blast
  then have e: "sint (parseUptimeToSeconds ''((-7 hours)'') = - 25200"
    by (simp add: uptime_factor_def)
  from a b c d h e t show ?thesis by blast
qed

text \<open>
  For 106751991167301 days the product exceeds the \<open>int64\<close> range and the result is
  negative. Texts that are not of the form \<open>(n unit)\<close> with a natural number \<open>n\<close> are not
  all mapped to 0: \<open>3 days\<close> and \<open>)3 days(\<close> give 259200, and \<open>(-3 days)\<close> gives -259200.
\<close>

theorem parseUptimeToSeconds_overflow_counterexample:
  "sint (parseUptimeToSeconds ''(106751991167301 days)'') = - 9223372036854745216 \<and>
   (106751991167301 :: int) * 86400 = 9223372036854806400 \<and>
   sint (parseUptimeToSeconds ''3 days'') = 259200 \<and>
   sint (parseUptimeToSeconds '')3 days('') = 259200 \<and>
   sint (parseUptimeToSeconds ''(-3 days)'') = - 259200"
  by (simp add: parseUptimeToSeconds_def Trim_def ParseInt_def ParseUint10_def isDigit_def
        digits_value_def digit_value_def)

section \<open>Properties of SNMP matching and of the orchestrator\<close>

text \<open>
  What \<open>GetSNMPTargetByMatchModelValue\<close> computes when the library has a detail session
  for every target (as the library \<open>loadSNMPInstanceLib\<close> builds has): the first
  candidate that is neither empty nor \<open><nil>\<close> and contains the signature of some SNMP
  target decides, and among the targets it is the last one whose signature that
  candidate contains.
\<close>

lemma last_match_Cons:
  "last_match c i (t # ts) =
     (case last_match c (Suc i) ts of
        Some p \<Rightarrow> Some p
      | None \<Rightarrow> if snmp_matches c t then Some (i, t) else None)"
  by (auto simp: last_match_def split: list.splits)

lemma GetSNMPTarget_targets_eq:
  assumes "i + length ts \<le> length (DetailFieldSessions lib)"
  shows "GetSNMPTarget_targets lib ip port protocol c i ts st =
           Inr (case last_match c i ts of
                  None \<Rightarrow> st
                | Some (j, t) \<Rightarrow>
                    (DetailFieldSessions lib ! j, matched_info ip port protocol t, True))"
  using assms
proof (induction ts arbitrary: i st)
  case Nil
  then show ?case by (simp add: last_match_def)
next
  case (Cons t ts)
  then have i: "i < length (DetailFieldSessions lib)"
    and r: "Suc i + length ts \<le> length (DetailFieldSessions lib)" by simp_all
  show ?case
  proof (cases "snmp_matches c t")
    case True
    then show ?thesis
      using i Cons.IH [OF r]
      by (simp add: last_match_Cons snmp_matches_def matched_info_def split: option.splits)
  next
    case False
    then show ?thesis
      using Cons.IH [OF r]
      by (auto simp: last_match_Cons snmp_matches_def split: option.splits)
  qed
qed

lemma GetSNMPTarget_values_matched:
  "GetSNMPTarget_values lib ip port protocol cs (d, info, True) = Inr (d, info, True)"
  by (induction cs) simp_all

lemma last_match_Some_iff:
  "last_match c i ts \<noteq> None \<longleftrightarrow> (\<exists>t \<in> set ts. snmp_matches c t)"
proof -
  have "filter (\<lambda>p. snmp_matches c (snd p)) (enumerate i ts) \<noteq> [] \<longleftrightarrow>
          (\<exists>p \<in> set (enumerate i ts). snmp_matches c (snd p))"
    by (simp add: filter_empty_conv)
  also have "\<dots> \<longleftrightarrow> (\<exists>t \<in> snd ` set (enumerate i ts). snmp_matches c t)" by auto
  also have "snd ` set (enumerate i ts) = set ts"
    by (metis map_snd_enumerate set_map)
  finally show ?thesis by (auto simp: last_match_def split: list.splits)
qed

lemma GetSNMPTarget_values_eq:
  assumes "length (SNMP_Targets lib) \<le> length (DetailFieldSessions lib)"
  shows "GetSNMPTarget_values lib ip port protocol cs (d, info, False) =
           Inr (case find (\<lambda>c. c \<noteq> ''<nil>'' \<and> c \<noteq> [] \<and>
                               (\<exists>t \<in> set (SNMP_Targets lib). snmp_matches c t)) cs of
                  None \<Rightarrow> (d, info, False)
                | Some c \<Rightarrow>
                    (case last_match c 0 (SNMP_Targets lib) of
                       None \<Rightarrow> (d, info, False)
                     | Some (j, t) \<Rightarrow>
                         (DetailFieldSessions lib ! j, matched_info ip port protocol t, True)))"
proof (induction cs)
  case Nil
  then show ?case by simp
next
  case (Cons c cs)
  from assms have b: "0 + length (SNMP_Targets lib) \<le> length (DetailFieldSessions lib)" by simp
  note inner = GetSNMPTarget_targets_eq [OF b]
  show ?case
  proof (cases "c = ''<nil>'' \<or> c = []")
    case True
    with Cons show ?thesis by auto
  next
    case usable: False
    show ?thesis
    proof (cases "last_match c 0 (SNMP_Targets lib)")
      case None
      then have "\<not> (\<exists>t \<in> set (SNMP_Targets lib). snmp_matches c t)"
        using last_match_Some_iff [of c 0 "SNMP_Targets lib"] by simp
      with usable None Cons show ?thesis by (simp add: inner)
    next
      case (Some p)
      then have "\<exists>t \<in> set (SNMP_Targets lib). snmp_matches c t"
        using last_match_Some_iff [of c 0 "SNMP_Targets lib"] by simp
      with usable Some show ?thesis
        by (cases p) (simp add: inner GetSNMPTarget_values_matched)
    qed
  qed
qed

lemma GetSNMPTargetByMatchModelValue_last_match:
  assumes "length (SNMP_Targets lib) \<le> length (DetailFieldSessions lib)"
  shows "GetSNMPTargetByMatchModelValue lib settings ip port protocol cs =
           Inr (case find (\<lambda>c. c \<noteq> ''<nil>'' \<and> c \<noteq> [] \<and>
                               (\<exists>t \<in> set (SNMP_Targets lib). snmp_matches c t)) cs of
                  None \<Rightarrow>
                    (ScanInstanceInfo_zero
                       \<lparr>TargetName := UNKNOWN_NAME, Port := SNMPSettings_Port settings,
                        Protocol := PROTOCOL_SNMP, Model := DEFAULT_UNKNOWN_VALUE,
                        Manufacturer := DEFAULT_UNKNOWN_VALUE,
                        InstanceType := InstanceTypeUnknown\<rparr>,
                     UnknownSession lib)
                | Some c \<Rightarrow>
                    (case last_match c 0 (SNMP_Targets lib) of
                       None \<Rightarrow> (ScanInstanceInfo_zero, SnmpSession_zero)
                     | Some (j, t) \<Rightarrow>
                         (matched_info ip port protocol t, DetailFieldSessions lib ! j)))"
proof (cases "find (\<lambda>c. c \<noteq> ''<nil>'' \<and> c \<noteq> [] \<and>
                               (\<exists>t \<in> set (SNMP_Targets lib). snmp_matches c t)) cs")
  case None
  then show ?thesis
    by (simp add: GetSNMPTargetByMatchModelValue_def GetSNMPTarget_values_eq [OF assms])
next
  case (Some c)
  then have "\<exists>t \<in> set (SNMP_Targets lib). snmp_matches c t"
    by (auto simp: find_Some_iff)
  then have "last_match c 0 (SNMP_Targets lib) \<noteq> None"
    using last_match_Some_iff [of c 0 "SNMP_Targets lib"] by simp
  then obtain j t where "last_match c 0 (SNMP_Targets lib) = Some (j, t)" by auto
  with Some show ?thesis
    by (simp add: GetSNMPTargetByMatchModelValue_def GetSNMPTarget_values_eq [OF assms])
qed

lemma loadSNMPInstanceLib_loop_lengths:
  "length (SNMP_Targets lib) = length (DetailFieldSessions lib) \<Longrightarrow>
   length (SNMP_Targets (loadSNMPInstanceLib_loop ts lib)) =
   length (DetailFieldSessions (loadSNMPInstanceLib_loop ts lib))"
  by (induction ts arbitrary: lib) (simp_all add: Let_def)

lemma loadSNMPInstanceLib_lengths:
  "length (SNMP_Targets (loadSNMPInstanceLib settings ts)) =
   length (DetailFieldSessions (loadSNMPInstanceLib settings ts))"
  by (simp add: loadSNMPInstanceLib_def Let_def loadSNMPInstanceLib_loop_lengths)

lemma example_lib:
  "loadSNMPInstanceLib example_snmp_settings
     [example_target ''A'' ''snmp'' ''PDU'', example_target ''B'' ''snmp'' ''PDUX''] =
   \<lparr>SNMP_TargetNames = [''A'', ''B''],
    SNMP_Targets = [example_target ''A'' ''snmp'' ''PDU'', example_target ''B'' ''snmp'' ''PDUX''],
    CustomModelSessions =
      [SnmpSession_zero\<lparr>SnmpSession_Requests :=
         [\<lparr>SNMPRequest_Name = ''A'', SNMPRequest_OID = ''1.3.6.1.2.1.1.1.0''\<rparr>]\<rparr>,
       SnmpSession_zero\<lparr>SnmpSession_Requests :=
         [\<lparr>SNMPRequest_Name = ''B'', SNMPRequest_OID = ''1.3.6.1.2.1.1.1.0''\<rparr>]\<rparr>],
    DetailFieldSessions = [SnmpSession_zero, SnmpSession_zero],
    UnknownSession =
      \<lparr>SnmpSession_Conn =
         \<lparr>SnmpConn_IP = [], SnmpConn_Port = 161, SnmpConn_Version = 2,
          SnmpConn_Community = ''public''\<rparr>,
       SnmpSession_Requests = getSNMPInstanceFieldRequest UNKNOWN_NAME\<rparr>\<rparr>"
  by (simp add: loadSNMPInstanceLib_def example_target_def example_snmp_settings_def
        PROTOCOL_SNMP_def Let_def getSNMPInstanceFieldRequest_def PDUE428_NAME_def
        PDU6PS56_NAME_def SWITCH5130_NAME_def SWITCH5945_NAME_def IOT_CLIENT_NAME_def
        UNKNOWN_NAME_def SnmpSession_zero_def)

text \<open>
  C1 at target A (signature \<open>PDU\<close>) configured before target B (signature \<open>PDUX\<close>)
  and the single candidate \<open>PDUX-1000\<close>: the inner loop goes on after A has matched,
  B matches too and overwrites the result, so the device is classified as B.
\<close>

theorem GetSNMPTarget_last_target_wins:
  "map_sum id (\<lambda>r. TargetName (fst r))
     (GetSNMPTargetByMatchModelValue
        (loadSNMPInstanceLib example_snmp_settings
           [example_target ''A'' ''snmp'' ''PDU'', example_target ''B'' ''snmp'' ''PDUX''])
        example_snmp_settings ''10.0.0.5'' 161 PROTOCOL_SNMP [''PDUX-1000'']) = Inr ''B''"
  unfolding example_lib
  by (simp add: GetSNMPTargetByMatchModelValue_def example_target_def PROTOCOL_SNMP_def)

lemma ScanDevice_dependencies_sweeps:
  "snd (snd (ScanDevice_dependencies w g conn r deps (results, errs, sweeps))) =
     sweeps @ replicate (length (filter (\<lambda>d. SourceTarget d = TargetName r) deps)) (IP r)"
proof (induction deps arbitrary: results errs sweeps)
  case Nil
  then show ?case by simp
next
  case (Cons d deps)
  show ?case
  proof (cases "TargetName r = SourceTarget d")
    case True
    then show ?thesis
      by (simp add: Let_def Cons replicate_app_Cons_same)
  next
    case False
    then have "SourceTarget d \<noteq> TargetName r" by auto
    with False show ?thesis by (simp add: Cons)
  qed
qed

lemma GetSNMPTarget_targets_inv:
  assumes "GetSNMPTarget_targets lib ip port protocol c i ts st = Inr st'"
    and "snd (snd st) \<longrightarrow> IP (fst (snd st)) = ip"
  shows "snd (snd st') \<longrightarrow> IP (fst (snd st')) = ip"
  using assms
proof (induction ts arbitrary: i st)
  case Nil
  then show ?case by simp
next
  case (Cons t ts)
  show ?case
  proof (cases "Target_Protocol t \<noteq> PROTOCOL_SNMP")
    case True
    with Cons.prems Cons.IH [of "Suc i" st] show ?thesis by simp
  next
    case snmp: False
    show ?thesis
    proof (cases "Contains c (SNMP_MatchValueContains t)")
      case True
      let ?st = "(DetailFieldSessions lib ! i,
              ScanInstanceInfo_zero
                \<lparr>TargetName := Target_Name t, IP := ip, Port := port, Protocol := protocol,
                 Model := Target_Model t, Manufacturer := Target_Manufacturer t,
                 InstanceType := Target_InstanceType t\<rparr>,
              True)"
      from Cons.prems(1) snmp True have i: "i < length (DetailFieldSessions lib)"
        by (auto split: if_splits)
      with Cons.prems(1) snmp True
      have "GetSNMPTarget_targets lib ip port protocol c (Suc i) ts ?st = Inr st'" by simp
      from Cons.IH [OF this] show ?thesis by simp
    next
      case False
      with snmp Cons.prems Cons.IH [of "Suc i" st] show ?thesis by simp
    qed
  qed
qed

lemma GetSNMPTarget_values_inv:
  assumes "GetSNMPTarget_values lib ip port protocol cs st = Inr st'"
    and "snd (snd st) \<longrightarrow> IP (fst (snd st)) = ip"
  shows "snd (snd st') \<longrightarrow> IP (fst (snd st')) = ip"
  using assms
proof (induction cs arbitrary: st)
  case Nil
  then show ?case by simp
next
  case (Cons c cs)
  show ?case
  proof (cases "c = ''<nil>'' \<or> c = [] \<or> snd (snd st)")
    case True
    with Cons.prems have "GetSNMPTarget_values lib ip port protocol cs st = Inr st'" by simp
    from Cons.IH [OF this Cons.prems(2)] show ?thesis .
  next
    case False
    with Cons.prems(1) obtain st1 where
      1: "GetSNMPTarget_targets lib ip port protocol c 0 (SNMP_Targets lib) st = Inr st1" and
      2: "GetSNMPTarget_values lib ip port protocol cs st1 = Inr st'"
      by (auto split: sum.splits)
    from GetSNMPTarget_targets_inv [OF 1 Cons.prems(2)]
    have "snd (snd st1) \<longrightarrow> IP (fst (snd st1)) = ip" .
    from Cons.IH [OF 2 this] show ?thesis .
  qed
qed

lemma GetSNMPTargetByMatchModelValue_IP:
  assumes "GetSNMPTargetByMatchModelValue lib settings ip port protocol cs = Inr (info, session)"
  shows "TargetName info = UNKNOWN_NAME \<or> IP info = ip"
proof -
  from assms obtain d i m where
    v: "GetSNMPTarget_values lib ip port protocol cs (SnmpSession_zero, ScanInstanceInfo_zero, False)
          = Inr (d, i, m)"
    by (auto simp: GetSNMPTargetByMatchModelValue_def split: sum.splits)
  from GetSNMPTarget_values_inv [OF v] have inv: "m \<longrightarrow> IP i = ip" by simp
  show ?thesis
  proof (cases m)
    case True
    with assms v inv show ?thesis by (simp add: GetSNMPTargetByMatchModelValue_def)
  next
    case False
    with assms v show ?thesis by (auto simp: GetSNMPTargetByMatchModelValue_def)
  qed
qed

lemma MatchSnmpInstances_IP:
  assumes "MatchSnmpInstances net resolve lib settings conn = Inr (info, err)"
  shows "err = None \<and> (TargetName info = UNKNOWN_NAME \<or> IP info = ConnInfo_IP conn)"
proof -
  from assms obtain cs info0 session where
    g: "GetSNMPTargetByMatchModelValue lib settings (ConnInfo_IP conn) (ConnInfo_Port conn)
          PROTOCOL_SNMP cs = Inr (info0, session)" and
    i: "TargetName info = TargetName info0" "IP info = IP info0" and e: "err = None"
    by (auto simp: MatchSnmpInstances_def Let_def split: sum.splits)
  from GetSNMPTargetByMatchModelValue_IP [OF g] i e show ?thesis by simp
qed

lemma ScanDevice_sweeps:
  assumes "MatchSnmpInstances (snmp_net w) (arp w) (G_SNMPInstanceLib g) (G_SNMPSettings g) conn =
             Inr (info, err)"
  shows "modbus_sweeps (ScanDevice w g conn) =
           (if err = None
              then replicate
                     (length (filter (\<lambda>d. SourceTarget d = TargetName info) (G_Dependencies g)))
                     (IP info)
            else [])"
  using assms
    ScanDevice_dependencies_sweeps [of w g conn info "G_Dependencies g" "[info]" "[]" "[]"]
  by (simp add: ScanDevice_def split_def Let_def)

text \<open>
  C2, as the code has it. When SNMP matching panics no Modbus sweep is made. When it
  returns a result, \<open>MatchModbusInstances\<close> is called once for every entry of the
  dependency table whose source is the result's target name, each time with the IP of
  the result, so a sweep is made exactly when the matcher returned no error and the
  target name appears as a source; a result whose target name is not the reserved
  \<open>unknown\<close> carries the scanned IP.
\<close>

theorem ScanDevice_modbus_trigger:
  "(\<forall>p. MatchSnmpInstances (snmp_net w) (arp w) (G_SNMPInstanceLib g) (G_SNMPSettings g) conn = Inl p \<longrightarrow>
        modbus_sweeps (ScanDevice w g conn) = []) \<and>
   (\<forall>info err.
      MatchSnmpInstances (snmp_net w) (arp w) (G_SNMPInstanceLib g) (G_SNMPSettings g) conn =
        Inr (info, err) \<longrightarrow>
      (modbus_sweeps (ScanDevice w g conn) \<noteq> [] \<longleftrightarrow>
         err = None \<and> TargetName info \<in> SourceTarget ` set (G_Dependencies g)) \<and>
      modbus_sweeps (ScanDevice w g conn) =
        (if err = None
           then replicate
                  (length (filter (\<lambda>d. SourceTarget d = TargetName info) (G_Dependencies g)))
                  (IP info)
         else []) \<and>
      (TargetName info \<noteq> UNKNOWN_NAME \<longrightarrow> IP info = ConnInfo_IP conn))"
proof (intro conjI allI impI)
  fix p
  assume "MatchSnmpInstances (snmp_net w) (arp w) (G_SNMPInstanceLib g) (G_SNMPSettings g) conn = Inl p"
  then show "modbus_sweeps (ScanDevice w g conn) = []" by (simp add: ScanDevice_def)
next
  fix info err
  assume m: "MatchSnmpInstances (snmp_net w) (arp w) (G_SNMPInstanceLib g) (G_SNMPSettings g) conn =
        Inr (info, err)"
  let ?n = "length (filter (\<lambda>d. SourceTarget d = TargetName info) (G_Dependencies g))"
  have s: "modbus_sweeps (ScanDevice w g conn) = (if err = None then replicate ?n (IP info) else [])"
    using m by (rule ScanDevice_sweeps)
  show "modbus_sweeps (ScanDevice w g conn) = (if err = None then replicate ?n (IP info) else [])"
    by (rule s)
  have "?n \<noteq> 0 \<longleftrightarrow> TargetName info \<in> SourceTarget ` set (G_Dependencies g)"
    by (force simp: filter_empty_conv image_iff)
  then show "modbus_sweeps (ScanDevice w g conn) \<noteq> [] \<longleftrightarrow>
         err = None \<and> TargetName info \<in> SourceTarget ` set (G_Dependencies g)"
    unfolding s by auto
  {
    assume "TargetName info \<noteq> UNKNOWN_NAME"
    with MatchSnmpInstances_IP [OF m] show "IP info = ConnInfo_IP conn" by simp
  }
qed


lemma example_snmp_lib:
  "loadSNMPInstanceLib example_snmp_settings example_targets =
   \<lparr>SNMP_TargetNames = [''GW''],
    SNMP_Targets = [example_target ''GW'' ''snmp'' ''WCM''],
    CustomModelSessions =
      [SnmpSession_zero\<lparr>SnmpSession_Requests :=
         [\<lparr>SNMPRequest_Name = ''GW'', SNMPRequest_OID = ''1.3.6.1.2.1.1.1.0''\<rparr>]\<rparr>],
    DetailFieldSessions = [SnmpSession_zero],
    UnknownSession =
      \<lparr>SnmpSession_Conn =
         \<lparr>SnmpConn_IP = [], SnmpConn_Port = 161, SnmpConn_Version = 2,
          SnmpConn_Community = ''public''\<rparr>,
       SnmpSession_Requests = getSNMPInstanceFieldRequest UNKNOWN_NAME\<rparr>\<rparr>"
  by (simp add: loadSNMPInstanceLib_def example_targets_def example_target_def
        example_snmp_settings_def PROTOCOL_SNMP_def Let_def getSNMPInstanceFieldRequest_def
        PDUE428_NAME_def PDU6PS56_NAME_def SWITCH5130_NAME_def SWITCH5945_NAME_def
        IOT_CLIENT_NAME_def UNKNOWN_NAME_def SnmpSession_zero_def)

lemma example_reachable:
  "map_sum id (\<lambda>r. (TargetName (fst r), IP (fst r), snd r))
     (MatchSnmpInstances (snmp_net (example_world True)) (arp (example_world True))
        (loadSNMPInstanceLib example_snmp_settings example_targets) example_snmp_settings
        example_conn) = Inr (''GW'', ''10.0.0.5'', None)"
  unfolding example_snmp_lib
  by (simp add: MatchSnmpInstances_def example_world_def example_conn_def GetSnmpValue_def
        withConn_def SnmpSession_zero_def isAlnum_def GetSNMPTargetByMatchModelValue_def
        example_target_def PROTOCOL_SNMP_def Let_def)

lemma example_unreachable:
  "map_sum id (\<lambda>r. (TargetName (fst r), IP (fst r), snd r))
     (MatchSnmpInstances (snmp_net (example_world False)) (arp (example_world False))
        (loadSNMPInstanceLib example_snmp_settings example_targets) example_snmp_settings
        example_conn) = Inr (''unknown'', [], None)"
  unfolding example_snmp_lib
  by (simp add: MatchSnmpInstances_def example_world_def example_conn_def GetSnmpValue_def
        withConn_def SnmpSession_zero_def GetSNMPTargetByMatchModelValue_def
        ScanInstanceInfo_zero_def UNKNOWN_NAME_def Let_def)

text \<open>The theorem at a gateway that answers \<open>WCM-421\<close> and is listed as a source.\<close>

theorem ScanDevice_modbus_trigger_witness:
  "map_sum id (\<lambda>r. (TargetName (fst r), IP (fst r), snd r))
     (MatchSnmpInstances (snmp_net (example_world True)) (arp (example_world True))
        (G_SNMPInstanceLib (example_globals ''GW'')) (G_SNMPSettings (example_globals ''GW''))
        example_conn) = Inr (''GW'', ''10.0.0.5'', None) \<and>
   ''GW'' \<in> SourceTarget ` set (G_Dependencies (example_globals ''GW'')) \<and>
   modbus_sweeps (ScanDevice (example_world True) (example_globals ''GW'') example_conn) =
     [''10.0.0.5'']"
proof -
  let ?w = "example_world True" and ?g = "example_globals ''GW''"
  have g: "G_SNMPInstanceLib ?g = loadSNMPInstanceLib example_snmp_settings example_targets"
    "G_SNMPSettings ?g = example_snmp_settings"
    by (simp_all add: example_globals_def)
  have e: "map_sum id (\<lambda>r. (TargetName (fst r), IP (fst r), snd r))
     (MatchSnmpInstances (snmp_net ?w) (arp ?w) (G_SNMPInstanceLib ?g) (G_SNMPSettings ?g)
        example_conn) = Inr (''GW'', ''10.0.0.5'', None)"
    unfolding g by (rule example_reachable)
  then obtain info err where
    m: "MatchSnmpInstances (snmp_net ?w) (arp ?w) (G_SNMPInstanceLib ?g) (G_SNMPSettings ?g)
          example_conn = Inr (info, err)"
    and i: "TargetName info = ''GW''" "IP info = ''10.0.0.5''" "err = None"
    by (cases "MatchSnmpInstances (snmp_net ?w) (arp ?w) (G_SNMPInstanceLib ?g) (G_SNMPSettings ?g)
          example_conn") auto
  have d: "''GW'' \<in> SourceTarget ` set (G_Dependencies ?g)"
    by (simp add: example_globals_def)
  from ScanDevice_modbus_trigger [of ?w ?g example_conn] m
  have "modbus_sweeps (ScanDevice ?w ?g example_conn) =
        (if err = None
           then replicate
                  (length (filter (\<lambda>d. SourceTarget d = TargetName info) (G_Dependencies ?g)))
                  (IP info)
         else [])"
    by blast
  then have "modbus_sweeps (ScanDevice ?w ?g example_conn) = [''10.0.0.5'']"
    by (simp add: i example_globals_def)
  with e d show ?thesis by blast
qed

text \<open>
  No SNMP connection can be set up and the dependency table lists \<open>unknown\<close> as a
  source: the result is the unknown record, without error, and the Modbus sweep is made
  (with the empty IP of that record).
\<close>

theorem ScanDevice_unknown_source_counterexample:
  "map_sum id (\<lambda>r. (TargetName (fst r), IP (fst r), snd r))
     (MatchSnmpInstances (snmp_net (example_world False)) (arp (example_world False))
        (G_SNMPInstanceLib (example_globals ''unknown''))
        (G_SNMPSettings (example_globals ''unknown'')) example_conn) =
     Inr (''unknown'', [], None) \<and>
   modbus_sweeps (ScanDevice (example_world False) (example_globals ''unknown'') example_conn) =
     [[]]"
proof -
  let ?w = "example_world False" and ?g = "example_globals ''unknown''"
  have g: "G_SNMPInstanceLib ?g = loadSNMPInstanceLib example_snmp_settings example_targets"
    "G_SNMPSettings ?g = example_snmp_settings"
    by (simp_all add: example_globals_def)
  have e: "map_sum id (\<lambda>r. (TargetName (fst r), IP (fst r), snd r))
     (MatchSnmpInstances (snmp_net ?w) (arp ?w) (G_SNMPInstanceLib ?g) (G_SNMPSettings ?g)
        example_conn) = Inr (''unknown'', [], None)"
    unfolding g by (rule example_unreachable)
  then obtain info err where
    m: "MatchSnmpInstances (snmp_net ?w) (arp ?w) (G_SNMPInstanceLib ?g) (G_SNMPSettings ?g)
          example_conn = Inr (info, err)"
    and i: "TargetName info = ''unknown''" "IP info = []" "err = None"
    by (cases "MatchSnmpInstances (snmp_net ?w) (arp ?w) (G_SNMPInstanceLib ?g) (G_SNMPSettings ?g)
          example_conn") auto
  from ScanDevice_sweeps [OF m]
  have "modbus_sweeps (ScanDevice ?w ?g example_conn) = [[]]"
    by (simp add: i example_globals_def)
  with e show ?thesis by blast
qed

section \<open>Properties of Modbus matching\<close>

lemma loadModbus_targets_Targets:
  "Modbus_Targets (loadModbus_targets bc ts seen lib) = Modbus_Targets lib @ filter is_modbus ts"
  by (induction ts arbitrary: seen lib) (simp_all add: Let_def)

lemma loadModbus_targets_requests:
  "length (ModbusSession_Requests (MatchSession lib)) \<le> Suc 0 \<Longrightarrow>
   length (ModbusSession_Requests (MatchSession (loadModbus_targets bc ts seen lib))) \<le> Suc 0"
  by (induction ts arbitrary: seen lib) (simp_all add: Let_def)

lemma loadModbus_slaves_Targets:
  "Modbus_Targets (loadModbus_slaves config ts port slaves lib) =
     Modbus_Targets lib @ concat (replicate (length slaves) (filter is_modbus ts))"
  by (induction slaves arbitrary: lib) (simp_all add: Let_def loadModbus_targets_Targets)

lemma loadModbus_slaves_requests:
  "length (ModbusSession_Requests (MatchSession lib)) \<le> Suc 0 \<Longrightarrow>
   length (ModbusSession_Requests (MatchSession (loadModbus_slaves config ts port slaves lib))) \<le> Suc 0"
  by (induction slaves arbitrary: lib) (simp_all add: Let_def loadModbus_targets_requests)

lemma loadModbus_ports_Targets:
  "Modbus_Targets (loadModbus_ports config ts ports lib) =
     Modbus_Targets lib @
     concat (replicate (length ports * length (ModbusSettings_SlaveID config)) (filter is_modbus ts))"
  by (induction ports arbitrary: lib)
     (simp_all add: loadModbus_slaves_Targets replicate_add)

lemma loadModbus_ports_requests:
  "length (ModbusSession_Requests (MatchSession lib)) \<le> Suc 0 \<Longrightarrow>
   length (ModbusSession_Requests (MatchSession (loadModbus_ports config ts ports lib))) \<le> Suc 0"
  by (induction ports arbitrary: lib) (simp_all add: loadModbus_slaves_requests)

lemma loadModbusInstanceLib_Targets:
  "Modbus_Targets (loadModbusInstanceLib config ts) =
     concat (replicate (length (ModbusSettings_Port config) * length (ModbusSettings_SlaveID config))
               (filter is_modbus ts))"
  by (simp add: loadModbusInstanceLib_def loadModbus_ports_Targets)

lemma loadModbusInstanceLib_requests:
  "length (ModbusSession_Requests (MatchSession (loadModbusInstanceLib config ts))) \<le> Suc 0"
  unfolding loadModbusInstanceLib_def
  by (rule loadModbus_ports_requests) (simp add: ModbusSession_zero_def)

lemma concat_replicate_hd:
  "0 < n \<Longrightarrow> (case concat (replicate n xs) of [] \<Rightarrow> None | t # _ \<Rightarrow> Some t) =
               (case xs of [] \<Rightarrow> None | t # _ \<Rightarrow> Some t)"
proof (induction n)
  case 0
  then show ?case by simp
next
  case (Suc n)
  show ?case
  proof (cases xs)
    case Nil
    then show ?thesis by simp
  next
    case (Cons a list)
    then show ?thesis by simp
  qed
qed

lemma loadModbusInstanceLib_first:
  assumes "ModbusSettings_Port config \<noteq> []" "ModbusSettings_SlaveID config \<noteq> []"
  shows "(case Modbus_Targets (loadModbusInstanceLib config ts) of [] \<Rightarrow> None | t # _ \<Rightarrow> Some t) =
           first_modbus_target ts"
proof -
  from assms have "0 < length (ModbusSettings_Port config) * length (ModbusSettings_SlaveID config)"
    by simp
  then show ?thesis
    unfolding loadModbusInstanceLib_Targets first_modbus_target_def
    by (rule concat_replicate_hd)
qed


lemma GetModbusValue_no_request:
  assumes "ModbusSession_Requests session = []"
  shows "GetModbusValue net session = Inr [] \<or> (\<exists>e. GetModbusValue net session = Inl e)"
  using assms by (simp add: GetModbusValue_def Let_def)

lemma GetModbusValue_one_request:
  assumes "ModbusSession_Requests session = [request]"
  shows "GetModbusValue net session =
           (case match_read net session of
              Some bytes \<Rightarrow> Inr [(RegisterName request, bytes)]
            | None \<Rightarrow> GetModbusValue net session) \<and>
         (match_read net session = None \<longrightarrow> (\<exists>e. GetModbusValue net session = Inl e))"
  using assms
  by (auto simp: GetModbusValue_def match_read_def Let_def split: option.splits)

lemma MatchModbus_targets_eq:
  "MatchModbus_targets ip port slaveID text targets infos =
     infos @ (case (case targets of [] \<Rightarrow> None | t # _ \<Rightarrow> Some t) of
                None \<Rightarrow> []
              | Some target \<Rightarrow>
                  if Contains text (Modbus_MatchValueContains target)
                    then [conn_info ip port slaveID target]
                  else [])"
  by (cases targets) (simp_all add: conn_info_def)

lemma slave_step:
  assumes "length (ModbusSession_Requests (MatchSession lib)) \<le> Suc 0"
  shows "(case GetModbusValue net (matchConn (MatchSession lib) ip port slaveID) of
            Inl err \<Rightarrow> infos
          | Inr modbusResult \<Rightarrow>
              snd (MatchModbus_values (Modbus_Targets lib) ip port slaveID modbusResult ([], infos))) =
         infos @ modbus_identified net lib
                   (case Modbus_Targets lib of [] \<Rightarrow> None | t # _ \<Rightarrow> Some t) ip (port, slaveID)"
proof -
  let ?s = "matchConn (MatchSession lib) ip port slaveID"
  have r: "ModbusSession_Requests ?s = ModbusSession_Requests (MatchSession lib)"
    by (simp add: matchConn_def)
  show ?thesis
  proof (cases "ModbusSession_Requests (MatchSession lib)")
    case Nil
    then have n: "ModbusSession_Requests ?s = []" using r by simp
    then have m: "match_read net ?s = None" by (simp add: match_read_def)
    from GetModbusValue_no_request [OF n, of net] show ?thesis
      by (auto simp: modbus_identified_def m)
  next
    case (Cons request rest)
    with assms have "rest = []" by simp
    with Cons r have o: "ModbusSession_Requests ?s = [request]" by simp
    note g = GetModbusValue_one_request [OF o, of net]
    show ?thesis
    proof (cases "match_read net ?s")
      case None
      with g obtain e where "GetModbusValue net ?s = Inl e" by blast
      with None show ?thesis by (simp add: modbus_identified_def)
    next
      case (Some bytes)
      with g have "GetModbusValue net ?s = Inr [(RegisterName request, bytes)]" by simp
      with Some show ?thesis
        by (simp add: modbus_identified_def MatchModbus_targets_eq)
    qed
  qed
qed

lemma MatchModbus_slaves_eq:
  assumes "length (ModbusSession_Requests (MatchSession lib)) \<le> Suc 0"
  shows "MatchModbus_slaves net lib ip port slaves infos =
           infos @ concat (map (\<lambda>slaveID. modbus_identified net lib
                     (case Modbus_Targets lib of [] \<Rightarrow> None | t # _ \<Rightarrow> Some t) ip (port, slaveID))
                   slaves)"
proof (induction slaves arbitrary: infos)
  case Nil
  then show ?case by simp
next
  case (Cons slaveID rest)
  let ?next = "(case GetModbusValue net (matchConn (MatchSession lib) ip port slaveID) of
            Inl err \<Rightarrow> infos
          | Inr modbusResult \<Rightarrow>
              snd (MatchModbus_values (Modbus_Targets lib) ip port slaveID modbusResult ([], infos)))"
  have "MatchModbus_slaves net lib ip port (slaveID # rest) infos =
          MatchModbus_slaves net lib ip port rest ?next"
    by (simp add: split_def Let_def split: sum.splits)
  then show ?case
    by (simp only: Cons slave_step [OF assms] list.map concat.simps append_assoc)
qed

lemma MatchModbus_ports_fst:
  assumes "length (ModbusSession_Requests (MatchSession lib)) \<le> Suc 0"
  shows "fst (MatchModbus_ports net lib settings ip ports (infos, results)) =
           infos @ concat (map (modbus_identified net lib
                     (case Modbus_Targets lib of [] \<Rightarrow> None | t # _ \<Rightarrow> Some t) ip)
                   (List.product ports (ModbusSettings_SlaveID settings)))"
proof (induction ports arbitrary: infos results)
  case Nil
  then show ?case by simp
next
  case (Cons port rest)
  show ?case
    by (simp add: Let_def Cons MatchModbus_slaves_eq [OF assms] map_concat comp_def)
qed


lemma product_Nil_right: "List.product xs [] = []"
  by (induction xs) simp_all

lemma MatchModbus_details_from:
  "set (MatchModbus_details net lib ip infos results) \<subseteq>
     set results \<union> {r. \<exists>c \<in> set infos. from_conn_info ip r c}"
proof (induction infos arbitrary: results)
  case Nil
  then show ?case by simp
next
  case (Cons c infos)
  show ?case
  proof (cases "GetModbusValue net (matchConn (DetailSession lib) ip (MCI_Port c) (MCI_SlaveID c))")
    case (Inl e)
    with Cons [of results] show ?thesis by (auto simp: Let_def)
  next
    case (Inr detail)
    let ?r = "ScanInstanceInfo_zero
              \<lparr>IP := ip, Port := MCI_Port c, SlaveID := MCI_SlaveID c,
               Protocol := PROTOCOL_MODBUS, Model := MCI_Model c,
               Manufacturer := MCI_Manufacturer c, InstanceType := MCI_InstanceType c,
               Version := getStringValue (map (\<lambda>(k, v). (k, SnmpString v)) detail) FIELD_VERSION_NAME,
               SerialNumber := getStringValue (map (\<lambda>(k, v). (k, SnmpString v)) detail) FIELD_SERIAL_NUMBER_NAME,
               Uptime := parseUptimeToSeconds
                           (getStringValue (map (\<lambda>(k, v). (k, SnmpString v)) detail) FIELD_UPTIME_NAME)\<rparr>"
    have f: "from_conn_info ip ?r c" by (simp add: from_conn_info_def)
    have "MatchModbus_details net lib ip (c # infos) results =
            MatchModbus_details net lib ip infos (results @ [?r])"
      using Inr by (simp add: Let_def)
    with Cons [of "results @ [?r]"] f show ?thesis by auto
  qed
qed

lemma MatchModbus_ports_from:
  assumes "length (ModbusSession_Requests (MatchSession lib)) \<le> Suc 0"
    and "\<forall>r \<in> set results. \<exists>c \<in> set infos. from_conn_info ip r c"
  shows "\<forall>r \<in> set (snd (MatchModbus_ports net lib settings ip ports (infos, results))).
           \<exists>c \<in> set (fst (MatchModbus_ports net lib settings ip ports (infos, results))).
             from_conn_info ip r c"
  using assms(2)
proof (induction ports arbitrary: infos results)
  case Nil
  then show ?case by simp
next
  case (Cons port rest)
  let ?infos = "MatchModbus_slaves net lib ip port (ModbusSettings_SlaveID settings) infos"
  have mono: "set infos \<subseteq> set ?infos"
    by (simp add: MatchModbus_slaves_eq [OF assms(1)])
  show ?case
  proof (cases "?infos = []")
    case True
    with mono Cons.prems have "\<forall>r \<in> set results. \<exists>c \<in> set ?infos. from_conn_info ip r c"
      by blast
    from Cons.IH [OF this] True show ?thesis by (simp add: Let_def)
  next
    case False
    let ?results = "MatchModbus_details net lib ip ?infos results"
    have "\<forall>r \<in> set ?results. \<exists>c \<in> set ?infos. from_conn_info ip r c"
      using MatchModbus_details_from [of net lib ip ?infos results] mono Cons.prems by blast
    from Cons.IH [OF this] False show ?thesis by (simp add: Let_def)
  qed
qed

text \<open>
  What the sweep of one IP identifies, with the library the loader builds from the
  configuration: for the pairs of the Cartesian product of ports and slave IDs in order,
  the pairs whose match read returns bytes that are neither empty nor all zero and whose
  text contains the signature of the first configured Modbus target. The loop over the
  targets is left after its first iteration, so no other target is compared. Every
  record the sweep returns carries the port, slave ID, model, manufacturer and instance
  type of one of these connections.
\<close>

lemma MatchModbus_ports_first_target_only:
  "fst (MatchModbus_ports net (loadModbusInstanceLib settings targets) settings ip
          (ModbusSettings_Port settings) ([], [])) =
     concat (map (modbus_identified net (loadModbusInstanceLib settings targets)
                    (first_modbus_target targets) ip)
               (List.product (ModbusSettings_Port settings) (ModbusSettings_SlaveID settings))) \<and>
   (\<forall>r \<in> set (MatchModbusInstances net (loadModbusInstanceLib settings targets) settings ip).
      \<exists>c \<in> set (concat (map (modbus_identified net (loadModbusInstanceLib settings targets)
                              (first_modbus_target targets) ip)
                         (List.product (ModbusSettings_Port settings)
                            (ModbusSettings_SlaveID settings)))).
        from_conn_info ip r c)"
proof -
  let ?lib = "loadModbusInstanceLib settings targets"
  let ?pairs = "List.product (ModbusSettings_Port settings) (ModbusSettings_SlaveID settings)"
  let ?first = "case Modbus_Targets ?lib of [] \<Rightarrow> None | t # _ \<Rightarrow> Some t"
  note req = loadModbusInstanceLib_requests [of settings targets]
  have eq: "map (modbus_identified net ?lib ?first ip) ?pairs =
        map (modbus_identified net ?lib (first_modbus_target targets) ip) ?pairs"
  proof (cases "?pairs = []")
    case True
    then show ?thesis by simp
  next
    case False
    then have "ModbusSettings_Port settings \<noteq> []" "ModbusSettings_SlaveID settings \<noteq> []"
      by (auto simp: product_Nil_right)
    then have "?first = first_modbus_target targets" by (rule loadModbusInstanceLib_first)
    then show ?thesis by simp
  qed
  have 1: "fst (MatchModbus_ports net ?lib settings ip (ModbusSettings_Port settings) ([], [])) =
                  concat (map (modbus_identified net ?lib (first_modbus_target targets) ip) ?pairs)"
    by (simp only: MatchModbus_ports_fst [OF req] append_Nil eq)
  have "\<forall>r \<in> set (snd (MatchModbus_ports net ?lib settings ip (ModbusSettings_Port settings) ([], []))).
           \<exists>c \<in> set (fst (MatchModbus_ports net ?lib settings ip (ModbusSettings_Port settings) ([], []))).
             from_conn_info ip r c"
    by (rule MatchModbus_ports_from [OF req]) simp
  then have 2: "\<forall>r \<in> set (MatchModbusInstances net ?lib settings ip).
      \<exists>c \<in> set (concat (map (modbus_identified net ?lib (first_modbus_target targets) ip) ?pairs)).
        from_conn_info ip r c"
    unfolding 1 MatchModbusInstances_def .
  from 1 2 show ?thesis by (rule conjI)
qed

lemma example_pair_lib:
  "loadModbusInstanceLib example_modbus_settings example_modbus_pair =
     \<lparr>Modbus_TargetNames = [''PDU-Z'', ''PDU-M'', ''PDU-Z'', ''PDU-M''],
      Modbus_Targets =
        [example_target ''PDU-Z'' ''modbus'' ''ZZZ'', example_target ''PDU-M'' ''modbus'' ''PDU'',
         example_target ''PDU-Z'' ''modbus'' ''ZZZ'', example_target ''PDU-M'' ''modbus'' ''PDU''],
      MatchSession =
        \<lparr>ModbusSession_Conn =
           \<lparr>ModbusConn_IP = [], ModbusConn_Port = 7000, ModbusConn_Mode = ''RTUOverTCP'',
            ModbusConn_SlaveID = 1\<rparr>,
         ModbusSession_Requests =
           [\<lparr>RegisterType = ''input'', RegisterName = ''PDU-M'', Address = 1024, Length = 8\<rparr>]\<rparr>,
      DetailSession =
        \<lparr>ModbusSession_Conn =
           \<lparr>ModbusConn_IP = [], ModbusConn_Port = 7000, ModbusConn_Mode = ''RTUOverTCP'',
            ModbusConn_SlaveID = 1\<rparr>,
         ModbusSession_Requests = []\<rparr>\<rparr>"
  by (simp add: loadModbusInstanceLib_def example_modbus_settings_def example_modbus_pair_def
        example_modbus_pair_swapped_def example_target_def PROTOCOL_MODBUS_def Let_def getModbusInstanceFieldRequest_def
        PDU1315_NAME_def PDU4445_NAME_def)

lemma example_swapped_lib:
  "loadModbusInstanceLib example_modbus_settings example_modbus_pair_swapped =
     \<lparr>Modbus_TargetNames = [''PDU-M'', ''PDU-Z'', ''PDU-M'', ''PDU-Z''],
      Modbus_Targets =
        [example_target ''PDU-M'' ''modbus'' ''PDU'', example_target ''PDU-Z'' ''modbus'' ''ZZZ'',
         example_target ''PDU-M'' ''modbus'' ''PDU'', example_target ''PDU-Z'' ''modbus'' ''ZZZ''],
      MatchSession =
        \<lparr>ModbusSession_Conn =
           \<lparr>ModbusConn_IP = [], ModbusConn_Port = 7000, ModbusConn_Mode = ''RTUOverTCP'',
            ModbusConn_SlaveID = 1\<rparr>,
         ModbusSession_Requests =
           [\<lparr>RegisterType = ''input'', RegisterName = ''PDU-Z'', Address = 1024, Length = 8\<rparr>]\<rparr>,
      DetailSession =
        \<lparr>ModbusSession_Conn =
           \<lparr>ModbusConn_IP = [], ModbusConn_Port = 7000, ModbusConn_Mode = ''RTUOverTCP'',
            ModbusConn_SlaveID = 1\<rparr>,
         ModbusSession_Requests = []\<rparr>\<rparr>"
  by (simp add: loadModbusInstanceLib_def example_modbus_settings_def example_modbus_pair_def
        example_modbus_pair_swapped_def example_target_def PROTOCOL_MODBUS_def Let_def getModbusInstanceFieldRequest_def
        PDU1315_NAME_def PDU4445_NAME_def)

text \<open>
  C5 at two Modbus targets of one manufacturer with the signatures \<open>ZZZ\<close> and \<open>PDU\<close>, one
  port and the slave IDs 0 and 1, where the match read of slave 1 returns \<open>PDU1315\<close> and
  that of slave 0 fails. The text does not contain the first signature and contains the
  second, and the sweep identifies nothing: only the first target is compared. With the
  two targets in the other order the same device is identified.
\<close>

theorem MatchModbusInstances_later_target_not_compared:
  "GetModbusValue example_modbus_world
     (matchConn (MatchSession (loadModbusInstanceLib example_modbus_settings example_modbus_pair))
        ''10.0.0.5'' 7000 0) = Inl ReadRegisterFailed \<and>
   GetModbusValue example_modbus_world
     (matchConn (MatchSession (loadModbusInstanceLib example_modbus_settings example_modbus_pair))
        ''10.0.0.5'' 7000 1) = Inr [(''PDU-M'', ''PDU1315'')] \<and>
   \<not> Contains ''PDU1315'' ''ZZZ'' \<and> Contains ''PDU1315'' ''PDU'' \<and>
   fst (MatchModbus_ports example_modbus_world
          (loadModbusInstanceLib example_modbus_settings example_modbus_pair)
          example_modbus_settings ''10.0.0.5'' (ModbusSettings_Port example_modbus_settings)
          ([], [])) = [] \<and>
   MatchModbusInstances example_modbus_world
     (loadModbusInstanceLib example_modbus_settings example_modbus_pair)
     example_modbus_settings ''10.0.0.5'' = [] \<and>
   map (\<lambda>r. (Model r, Port r, SlaveID r))
     (MatchModbusInstances example_modbus_world
        (loadModbusInstanceLib example_modbus_settings example_modbus_pair_swapped)
        example_modbus_settings ''10.0.0.5'') = [(''Model-PDU-M'', 7000, 1)]"
proof -
  let ?lib = "loadModbusInstanceLib example_modbus_settings example_modbus_pair"
  have 1: "GetModbusValue example_modbus_world (matchConn (MatchSession ?lib) ''10.0.0.5'' 7000 0) =
             Inl ReadRegisterFailed"
    unfolding example_pair_lib
    by (simp add: GetModbusValue_def matchConn_def example_modbus_world_def Let_def)
  have 2: "GetModbusValue example_modbus_world (matchConn (MatchSession ?lib) ''10.0.0.5'' 7000 1) =
             Inr [(''PDU-M'', ''PDU1315'')]"
    unfolding example_pair_lib
    by (simp add: GetModbusValue_def matchConn_def example_modbus_world_def Let_def)
  have 3: "\<not> Contains ''PDU1315'' ''ZZZ''" "Contains ''PDU1315'' ''PDU''" by simp_all
  have 4: "fst (MatchModbus_ports example_modbus_world ?lib example_modbus_settings ''10.0.0.5''
                  (ModbusSettings_Port example_modbus_settings) ([], [])) = []"
    unfolding example_pair_lib
    by (simp add: example_modbus_settings_def GetModbusValue_def
          matchConn_def example_modbus_world_def Let_def example_target_def)
  have 5: "MatchModbusInstances example_modbus_world ?lib example_modbus_settings ''10.0.0.5'' = []"
    unfolding example_pair_lib
    by (simp add: MatchModbusInstances_def example_modbus_settings_def GetModbusValue_def
          matchConn_def example_modbus_world_def Let_def example_target_def)
  have 6: "map (\<lambda>r. (Model r, Port r, SlaveID r))
     (MatchModbusInstances example_modbus_world
        (loadModbusInstanceLib example_modbus_settings example_modbus_pair_swapped)
        example_modbus_settings ''10.0.0.5'') = [(''Model-PDU-M'', 7000, 1)]"
    unfolding example_swapped_lib
    by (simp add: MatchModbusInstances_def example_modbus_settings_def GetModbusValue_def
          matchConn_def example_modbus_world_def Let_def example_target_def)
  from 1 2 3 4 5 6 show ?thesis by (intro conjI)
qed

end
